theory Spec2Isabelle
  imports Main "HOL-Library.AList" "HOL-Library.Multiset"
begin

section \<open>Python values\<close>

text \<open>
  Every artifact of the pipeline is a JSON document, and every record is a Python
  \<^verbatim>\<open>dict\<close> read from one. A dict is an association list in insertion order, which is
  also the order \<^verbatim>\<open>json.dump\<close> writes. JSON numbers are integers here; texts are lists of
  8-bit code points.
\<close>

datatype json =
    JNull
  | JBool bool
  | JInt int
  | JStr string
  | JArr "json list"
  | JObj "(string \<times> json) list"

datatype exn =
    AttributeError
  | TypeError
  | KeyError
  | ValueError
  | JSONDecodeError
  | FileNotFoundError
  | OverflowError
  | OSError
  | RecursionError
  | RequestException

text \<open>Python truth value testing (\<^verbatim>\<open>if x:\<close>, \<^verbatim>\<open>not x\<close>, \<^verbatim>\<open>x or y\<close>).\<close>

fun truthy :: "json \<Rightarrow> bool" where
  "truthy JNull = False"
| "truthy (JBool b) = b"
| "truthy (JInt i) = (i \<noteq> 0)"
| "truthy (JStr s) = (s \<noteq> [])"
| "truthy (JArr xs) = (xs \<noteq> [])"
| "truthy (JObj kv) = (kv \<noteq> [])"

text \<open>\<^verbatim>\<open>x.get(k, d)\<close>: only a dict has the method.\<close>

fun dict_get :: "json \<Rightarrow> string \<Rightarrow> json \<Rightarrow> exn + json" where
  "dict_get (JObj kv) k d = Inr (case map_of kv k of None \<Rightarrow> d | Some v \<Rightarrow> v)"
| "dict_get _ k d = Inl AttributeError"

text \<open>\<^verbatim>\<open>d[k] = v\<close> on a dict: an existing key keeps its place, a new key goes last.\<close>

definition dict_set :: "(string \<times> json) list \<Rightarrow> string \<Rightarrow> json \<Rightarrow> (string \<times> json) list" where
  "dict_set kv k v = AList.update k v kv"

text \<open>\<^verbatim>\<open>d.get(k, dflt)\<close> on the key-value list of a dict.\<close>

definition get_or :: "(string \<times> json) list \<Rightarrow> string \<Rightarrow> json \<Rightarrow> json" where
  "get_or kv k dflt = (case map_of kv k of None \<Rightarrow> dflt | Some v \<Rightarrow> v)"

section \<open>Compliance merge\<close>

text \<open>
  \<^verbatim>\<open>check_license_violation_with_openai\<close> asks the external capability and returns a dict
  on every path (the validated answer, or the default \<^verbatim>\<open>{"has_violation": False,
  "violations": []}\<close>). It is the parameter \<open>chk\<close>, whose result is the key-value list of
  that dict.
\<close>

type_synonym violation_check = "json \<Rightarrow> json \<Rightarrow> (string \<times> json) list"

text \<open>
  The guard of the loop,
  \<^verbatim>\<open>dataset_record.get("downstream_usage", {}).get("is_downstream", False)\<close>.
\<close>

definition is_downstream :: "json \<Rightarrow> exn + bool" where
  "is_downstream dataset_record =
     (case dict_get dataset_record ''downstream_usage'' (JObj []) of
        Inl e \<Rightarrow> Inl e
      | Inr usage \<Rightarrow>
          (case dict_get usage ''is_downstream'' (JBool False) of
             Inl e \<Rightarrow> Inl e
           | Inr flag \<Rightarrow> Inr (truthy flag)))"

definition violation_fields :: "(string \<times> json) list \<Rightarrow> (string \<times> json) list \<Rightarrow> (string \<times> json) list" where
  "violation_fields violation_info kv =
     dict_set
       (dict_set kv ''has_violation''
          (case map_of violation_info ''has_violation'' of None \<Rightarrow> JBool False | Some v \<Rightarrow> v))
       ''violations''
       (case map_of violation_info ''violations'' of None \<Rightarrow> JArr [] | Some v \<Rightarrow> v)"

text \<open>
  The body of the loop of \<^verbatim>\<open>compliance_github.analyze_downstream_usage\<close> for a record
  that passed the guard (so it is a dict).
\<close>

fun update_record_github :: "violation_check \<Rightarrow> json \<Rightarrow> json \<Rightarrow> exn + json" where
  "update_record_github chk (JObj kv) original_info =
     (let kv' = violation_fields (chk (JObj kv) original_info) kv in
      if \<not> truthy (case map_of kv' ''citation'' of None \<Rightarrow> JNull | Some c \<Rightarrow> c)
      then (case dict_get original_info ''citation'' (JStr []) of
              Inl e \<Rightarrow> Inl e
            | Inr c \<Rightarrow> Inr (JObj (dict_set kv' ''citation'' c)))
      else Inr (JObj kv'))"
| "update_record_github chk _ original_info = Inl AttributeError"

text \<open>The same for \<^verbatim>\<open>compliance_huggingface.analyze_downstream_usage\<close>: no citation.\<close>

fun update_record_huggingface :: "violation_check \<Rightarrow> json \<Rightarrow> json \<Rightarrow> exn + json" where
  "update_record_huggingface chk (JObj kv) original_info =
     Inr (JObj (violation_fields (chk (JObj kv) original_info) kv))"
| "update_record_huggingface chk _ original_info = Inl AttributeError"

text \<open>
  The loop itself, shared by both files: \<open>updated_records\<close> is the list built so far, an
  exception leaves the loop and the function.
\<close>

fun analyze_loop ::
  "(json \<Rightarrow> json \<Rightarrow> exn + json) \<Rightarrow> json \<Rightarrow> json list \<Rightarrow> json list \<Rightarrow> exn + json list" where
  "analyze_loop upd original_info updated_records [] = Inr updated_records"
| "analyze_loop upd original_info updated_records (dataset_record # rest) =
     (case is_downstream dataset_record of
        Inl e \<Rightarrow> Inl e
      | Inr False \<Rightarrow> analyze_loop upd original_info updated_records rest
      | Inr True \<Rightarrow>
          (case upd dataset_record original_info of
             Inl e \<Rightarrow> Inl e
           | Inr r \<Rightarrow> analyze_loop upd original_info (updated_records @ [r]) rest))"

definition analyze_downstream_usage_github :: "violation_check \<Rightarrow> json list \<Rightarrow> json \<Rightarrow> exn + json list" where
  "analyze_downstream_usage_github chk downstream_datasets original_info =
     analyze_loop (update_record_github chk) original_info [] downstream_datasets"

definition analyze_downstream_usage_huggingface :: "violation_check \<Rightarrow> json list \<Rightarrow> json \<Rightarrow> exn + json list" where
  "analyze_downstream_usage_huggingface chk downstream_datasets original_info =
     analyze_loop (update_record_huggingface chk) original_info [] downstream_datasets"


text \<open>
  The artifacts: a file name is mapped to the JSON document the file holds; a name that is
  not mapped is a file that does not exist. \<^verbatim>\<open>here\<close> resolves every name against the
  same directory and is left out. The stages write with \<^verbatim>\<open>json.dump\<close>, a function of the
  document, so equal documents are equal files.
\<close>

type_synonym files = "string \<rightharpoonup> json"

text \<open>What a \<^verbatim>\<open>for\<close> loop iterates over, and the \<^verbatim>\<open>TypeError\<close> of \<^verbatim>\<open>len\<close> and \<^verbatim>\<open>iter\<close>.\<close>

fun py_iter :: "json \<Rightarrow> exn + json list" where
  "py_iter (JArr xs) = Inr xs"
| "py_iter (JObj kv) = Inr (map (\<lambda>p. JStr (fst p)) kv)"
| "py_iter (JStr s) = Inr (map (\<lambda>c. JStr [c]) s)"
| "py_iter _ = Inl TypeError"

definition license_profile_file :: "string \<Rightarrow> string" where
  "license_profile_file KEYWORD = ''extracted_dataset_info_with_license_analysis_'' @ KEYWORD @ ''.json''"

definition final_processed_repos_file :: "string \<Rightarrow> string" where
  "final_processed_repos_file KEYWORD = ''final_processed_repos_'' @ KEYWORD @ ''.json''"

definition final_processed_huggingface_file :: "string \<Rightarrow> string" where
  "final_processed_huggingface_file KEYWORD = ''final_processed_huggingface_'' @ KEYWORD @ ''.json''"

definition violations_github_file :: "string \<Rightarrow> string" where
  "violations_github_file KEYWORD = ''violations_github_'' @ KEYWORD @ ''.json''"

definition violations_huggingface_file :: "string \<Rightarrow> string" where
  "violations_huggingface_file KEYWORD = ''violations_huggingface_'' @ KEYWORD @ ''.json''"

text \<open>
  \<^verbatim>\<open>check_github\<close> and \<^verbatim>\<open>check_huggingface\<close>: both files are opened with no handler
  around the \<^verbatim>\<open>open\<close>.
\<close>

definition check_github :: "violation_check \<Rightarrow> string \<Rightarrow> files \<Rightarrow> exn + files" where
  "check_github chk KEYWORD fs =
     (case fs (license_profile_file KEYWORD) of
        None \<Rightarrow> Inl FileNotFoundError
      | Some original_info \<Rightarrow>
          (case fs (final_processed_repos_file KEYWORD) of
             None \<Rightarrow> Inl FileNotFoundError
           | Some downstream_datasets \<Rightarrow>
               (case py_iter downstream_datasets of
                  Inl e \<Rightarrow> Inl e
                | Inr records \<Rightarrow>
                    (case analyze_downstream_usage_github chk records original_info of
                       Inl e \<Rightarrow> Inl e
                     | Inr updated_records \<Rightarrow>
                         Inr (fs(violations_github_file KEYWORD \<mapsto> JArr updated_records))))))"

definition check_huggingface :: "violation_check \<Rightarrow> string \<Rightarrow> files \<Rightarrow> exn + files" where
  "check_huggingface chk KEYWORD fs =
     (case fs (license_profile_file KEYWORD) of
        None \<Rightarrow> Inl FileNotFoundError
      | Some original_info \<Rightarrow>
          (case fs (final_processed_huggingface_file KEYWORD) of
             None \<Rightarrow> Inl FileNotFoundError
           | Some downstream_datasets \<Rightarrow>
               (case py_iter downstream_datasets of
                  Inl e \<Rightarrow> Inl e
                | Inr records \<Rightarrow>
                    (case analyze_downstream_usage_huggingface chk records original_info of
                       Inl e \<Rightarrow> Inl e
                     | Inr updated_records \<Rightarrow>
                         Inr (fs(violations_huggingface_file KEYWORD \<mapsto> JArr updated_records))))))"

section \<open>Classification gate\<close>

text \<open>
  \<^verbatim>\<open>str.isspace\<close>, which is also what \<^verbatim>\<open>\s\<close> matches in a \<^verbatim>\<open>str\<close> pattern and what
  \<^verbatim>\<open>str.strip()\<close> removes, on the code points below 256.
\<close>

definition is_space :: "char \<Rightarrow> bool" where
  "is_space c =
     (let n = (of_char c :: nat)
      in (9 \<le> n \<and> n \<le> 13) \<or> (28 \<le> n \<and> n \<le> 32) \<or> n = 133 \<or> n = 160)"

definition skip_ws :: "string \<Rightarrow> string" where
  "skip_ws s = dropWhile is_space s"

definition py_strip :: "string \<Rightarrow> string" where
  "py_strip s = rev (skip_ws (rev (skip_ws s)))"

definition starts_with :: "string \<Rightarrow> string \<Rightarrow> bool" where
  "starts_with p s = (take (length p) s = p)"

definition fence :: string where
  "fence = [CHR 0x60, CHR 0x60, CHR 0x60]"

definition fence_json :: string where
  "fence_json = fence @ ''json''"

text \<open>
  \<^verbatim>\<open>re.search(r"```json\s*(\{.*?\})\s*```", text, re.DOTALL)\<close> and its group 1.
  \<open>closing\<close> is the lazy \<^verbatim>\<open>.*?\}\<close> followed by \<^verbatim>\<open>\s*```\<close>, read after the opening brace:
  the shortest text that ends in a closing brace with only white space between it and
  the next fence. \<open>match_here\<close> is the pattern after \<^verbatim>\<open>```json\<close>: a greedy \<^verbatim>\<open>\s*\<close> has
  to take all the white space, since neither the brace nor the fence is white space.
  \<open>re_search\<close> tries the start positions from the left.
\<close>

fun closing :: "string \<Rightarrow> string option" where
  "closing [] = None"
| "closing (c # cs) =
     (if c = CHR ''}'' \<and> starts_with fence (skip_ws cs) then Some [c]
      else map_option ((#) c) (closing cs))"

definition match_here :: "string \<Rightarrow> string option" where
  "match_here s =
     (case skip_ws s of
        [] \<Rightarrow> None
      | c # cs \<Rightarrow> if c = CHR ''{'' then map_option ((#) c) (closing cs) else None)"

fun re_search :: "string \<Rightarrow> string option" where
  "re_search [] = None"
| "re_search (c # cs) =
     (if starts_with fence_json (c # cs)
      then (case match_here (drop (length fence_json) (c # cs)) of
              Some g \<Rightarrow> Some g
            | None \<Rightarrow> re_search cs)
      else re_search cs)"

text \<open>
  \<^verbatim>\<open>json.loads\<close> is the standard library's parser, the parameter \<open>loads\<close>: the document
  read, or \<open>None\<close> where it raises. \<^verbatim>\<open>extract_json_from_text\<close> catches every exception
  of it and returns the empty dict then.
\<close>

definition extract_json_from_text :: "(string \<Rightarrow> json option) \<Rightarrow> string \<Rightarrow> json" where
  "extract_json_from_text loads text =
     (case re_search text of
        Some json_str \<Rightarrow> (case loads json_str of Some v \<Rightarrow> v | None \<Rightarrow> JObj [])
      | None \<Rightarrow> (case loads text of Some v \<Rightarrow> v | None \<Rightarrow> JObj []))"

text \<open>
  The external capability: for a record and the reference context, the text of the first
  choice of the completion (\<open>Inr\<close>), or the message of the exception that the call or the
  reading of its answer raised (\<open>Inl\<close>).
\<close>

type_synonym capability = "json \<Rightarrow> json \<Rightarrow> string + string"

text \<open>\<^verbatim>\<open>', '.join(x)\<close> returns: \<open>x\<close> is iterable and yields only texts.\<close>

fun joinable :: "json \<Rightarrow> bool" where
  "joinable (JArr xs) = list_all (\<lambda>x. case x of JStr s \<Rightarrow> True | _ \<Rightarrow> False) xs"
| "joinable (JStr s) = True"
| "joinable (JObj kv) = True"
| "joinable _ = False"

definition default_verdict :: "string \<Rightarrow> json" where
  "default_verdict msg =
     JObj [(''is_downstream'', JBool False), (''reason'', JStr (''Error calling OpenAI API: '' @ msg))]"

text \<open>
  \<^verbatim>\<open>check_downstream_usage\<close>: the prompt is built before the \<^verbatim>\<open>try\<close>, so what its
  f-string raises leaves the function; inside the \<^verbatim>\<open>try\<close> every exception becomes the
  default verdict.
\<close>

definition check_downstream_usage ::
  "capability \<Rightarrow> (string \<Rightarrow> json option) \<Rightarrow> json \<Rightarrow> json \<Rightarrow> exn + json" where
  "check_downstream_usage llm loads repo_info dataset_info =
     (case dict_get repo_info ''topics'' (JArr []) of
        Inl e \<Rightarrow> Inl e
      | Inr repo_topics \<Rightarrow>
          if \<not> joinable repo_topics then Inl TypeError
          else (case dict_get dataset_info ''topics'' (JArr []) of
             Inl e \<Rightarrow> Inl e
           | Inr topics \<Rightarrow>
               if \<not> joinable topics then Inl TypeError
               else (case dict_get dataset_info ''representative_words'' (JArr []) of
                  Inl e \<Rightarrow> Inl e
                | Inr representative_words \<Rightarrow>
                    if \<not> joinable representative_words then Inl TypeError
                    else (case llm repo_info dataset_info of
                       Inl msg \<Rightarrow> Inr (default_verdict msg)
                     | Inr content \<Rightarrow> Inr (extract_json_from_text loads (py_strip content))))))"

text \<open>A \<^verbatim>\<open>for\<close> loop that updates every element and stops at the first exception.\<close>

fun for_each :: "('a \<Rightarrow> exn + 'b) \<Rightarrow> 'a list \<Rightarrow> exn + 'b list" where
  "for_each f [] = Inr []"
| "for_each f (x # xs) =
     (case f x of
        Inl e \<Rightarrow> Inl e
      | Inr y \<Rightarrow> (case for_each f xs of Inl e \<Rightarrow> Inl e | Inr ys \<Rightarrow> Inr (y # ys)))"

text \<open>
  The loop body of \<^verbatim>\<open>process_repos_file\<close>: \<^verbatim>\<open>repo.get('full_name')\<close> in the progress line
  needs a dict, then \<^verbatim>\<open>repo['downstream_usage'] = downstream_result\<close>.
\<close>

definition classify_repo :: "capability \<Rightarrow> (string \<Rightarrow> json option) \<Rightarrow> json \<Rightarrow> json \<Rightarrow> exn + json" where
  "classify_repo llm loads dataset_info repo =
     (case repo of
        JObj kv \<Rightarrow>
          (case check_downstream_usage llm loads repo dataset_info of
             Inl e \<Rightarrow> Inl e
           | Inr downstream_result \<Rightarrow> Inr (JObj (dict_set kv ''downstream_usage'' downstream_result)))
      | _ \<Rightarrow> Inl AttributeError)"

text \<open>
  \<^verbatim>\<open>process_repos_file\<close>: a missing input is reported and the function returns. A document
  that is not a list is iterated as Python iterates it (the keys of a dict, the characters
  of a text, none of which has \<^verbatim>\<open>get\<close>) and written back as it was read when the loop had
  nothing to do.
\<close>

definition process_repos_file ::
  "capability \<Rightarrow> (string \<Rightarrow> json option) \<Rightarrow> string \<Rightarrow> string \<Rightarrow> json \<Rightarrow> files \<Rightarrow> exn + files" where
  "process_repos_file llm loads input_filename output_filename dataset_info fs =
     (case fs input_filename of
        None \<Rightarrow> Inr fs
      | Some repos_data \<Rightarrow>
          (case py_iter repos_data of
             Inl e \<Rightarrow> Inl e
           | Inr repos \<Rightarrow>
               (case for_each (classify_repo llm loads dataset_info) repos of
                  Inl e \<Rightarrow> Inl e
                | Inr classified \<Rightarrow>
                    Inr (fs(output_filename \<mapsto>
                           (case repos_data of JArr xs \<Rightarrow> JArr classified | _ \<Rightarrow> repos_data))))))"

definition processed_github_repos_file :: "string \<Rightarrow> string" where
  "processed_github_repos_file KEYWORD = ''processed_github_repos_'' @ KEYWORD @ ''.json''"

text \<open>\<^verbatim>\<open>agent.fine_filter_github\<close> and \<^verbatim>\<open>filter_github\<close>: the stage for one keyword.\<close>

definition fine_filter_github ::
  "capability \<Rightarrow> (string \<Rightarrow> json option) \<Rightarrow> string \<Rightarrow> json \<Rightarrow> files \<Rightarrow> exn + files" where
  "fine_filter_github llm loads representative_term dataset_info fs =
     process_repos_file llm loads (processed_github_repos_file representative_term)
       (final_processed_repos_file representative_term) dataset_info fs"

text \<open>
  The dataset card as the hub and the competition-catalog classification put it into the
  prompt: \<^verbatim>\<open>len\<close> is taken of a truthy card, which a number and \<^verbatim>\<open>True\<close> do not have, and a
  card longer than the limit is cut and has a text appended, which only a text allows (a
  list cannot be added to a text, a dict cannot be sliced). \<open>Some\<close> is the exception. The
  card itself, cut or not, is part of the prompt, of which the capability is a function.
\<close>

definition trim_card :: "nat \<Rightarrow> json \<Rightarrow> exn option" where
  "trim_card limit dataset_card =
     (if \<not> truthy dataset_card then None
      else (case dataset_card of
              JStr t \<Rightarrow> None
            | JArr xs \<Rightarrow> if length xs > limit then Some TypeError else None
            | JObj kv \<Rightarrow> if length (remdups (map fst kv)) > limit then Some TypeError else None
            | _ \<Rightarrow> Some TypeError))"

text \<open>
  \<^verbatim>\<open>check_downstream_usage_hf\<close>: the card (at most 5000 characters), the joined file list
  and the prompt are built before the \<^verbatim>\<open>try\<close>.
\<close>

definition check_downstream_usage_hf ::
  "capability \<Rightarrow> (string \<Rightarrow> json option) \<Rightarrow> json \<Rightarrow> json \<Rightarrow> exn + json" where
  "check_downstream_usage_hf llm loads dataset_info original_dataset_info =
     (case dict_get dataset_info ''dataset_card'' (JStr []) of
        Inl e \<Rightarrow> Inl e
      | Inr hf_dataset_card \<Rightarrow>
          (case trim_card 5000 hf_dataset_card of
             Some e \<Rightarrow> Inl e
           | None \<Rightarrow>
               (case dict_get dataset_info ''files'' (JArr []) of
                  Inl e \<Rightarrow> Inl e
                | Inr files_list \<Rightarrow>
                    if \<not> joinable files_list then Inl TypeError
                    else (case dict_get original_dataset_info ''topics'' (JArr []) of
                       Inl e \<Rightarrow> Inl e
                     | Inr topics \<Rightarrow>
                         if \<not> joinable topics then Inl TypeError
                         else (case dict_get original_dataset_info ''representative_words'' (JArr []) of
                            Inl e \<Rightarrow> Inl e
                          | Inr representative_words \<Rightarrow>
                              if \<not> joinable representative_words then Inl TypeError
                              else (case llm dataset_info original_dataset_info of
                                 Inl msg \<Rightarrow> Inr (default_verdict msg)
                               | Inr content \<Rightarrow> Inr (extract_json_from_text loads (py_strip content))))))))"

text \<open>
  The loop body of \<^verbatim>\<open>fine_filter_huggingface.process_datasets_file\<close>: a new entry of four
  keys.
\<close>

definition classify_dataset :: "capability \<Rightarrow> (string \<Rightarrow> json option) \<Rightarrow> json \<Rightarrow> json \<Rightarrow> exn + json" where
  "classify_dataset llm loads original_dataset_info ds =
     (case ds of
        JObj kv \<Rightarrow>
          (case check_downstream_usage_hf llm loads ds original_dataset_info of
             Inl e \<Rightarrow> Inl e
           | Inr downstream_result \<Rightarrow>
               Inr (JObj [(''id'', get_or kv ''id'' JNull),
                          (''license'', get_or kv ''license'' JNull),
                          (''dataset_card'', get_or kv ''dataset_card'' JNull),
                          (''downstream_usage'', downstream_result)]))
      | _ \<Rightarrow> Inl AttributeError)"

text \<open>
  \<^verbatim>\<open>process_datasets_file\<close>: a missing input is reported and the function returns; the list
  of the new entries is written, whatever kind of document was iterated.
\<close>

definition process_datasets_file ::
  "capability \<Rightarrow> (string \<Rightarrow> json option) \<Rightarrow> string \<Rightarrow> string \<Rightarrow> json \<Rightarrow> files \<Rightarrow> exn + files" where
  "process_datasets_file llm loads input_filename output_filename original_dataset_info fs =
     (case fs input_filename of
        None \<Rightarrow> Inr fs
      | Some datasets \<Rightarrow>
          (case py_iter datasets of
             Inl e \<Rightarrow> Inl e
           | Inr entries \<Rightarrow>
               (case for_each (classify_dataset llm loads original_dataset_info) entries of
                  Inl e \<Rightarrow> Inl e
                | Inr processed_datasets \<Rightarrow> Inr (fs(output_filename \<mapsto> JArr processed_datasets)))))"

text \<open>
  \<^verbatim>\<open>agent.fine_filter_huggingface\<close> and \<^verbatim>\<open>filter_huggingface\<close>, with the file names the
  agent gives them.
\<close>

definition processed_huggingface_datasets_file :: "string \<Rightarrow> string" where
  "processed_huggingface_datasets_file KEYWORD = ''processed_huggingface_datasets_'' @ KEYWORD @ ''.json''"

definition final_processed_datasets_file :: "string \<Rightarrow> string" where
  "final_processed_datasets_file KEYWORD = ''final_processed_datasets_'' @ KEYWORD @ ''.json''"

definition fine_filter_huggingface ::
  "capability \<Rightarrow> (string \<Rightarrow> json option) \<Rightarrow> string \<Rightarrow> json \<Rightarrow> files \<Rightarrow> exn + files" where
  "fine_filter_huggingface llm loads representative_term dataset_info fs =
     process_datasets_file llm loads (processed_huggingface_datasets_file representative_term)
       (final_processed_datasets_file representative_term) dataset_info fs"

text \<open>
  \<^verbatim>\<open>check_downstream_usage_kaggle\<close>: the card (at most 8000 characters) and the prompt are
  built before the \<^verbatim>\<open>try\<close>.
\<close>

definition check_downstream_usage_kaggle ::
  "capability \<Rightarrow> (string \<Rightarrow> json option) \<Rightarrow> json \<Rightarrow> json \<Rightarrow> exn + json" where
  "check_downstream_usage_kaggle llm loads dataset_info original_dataset_info =
     (case dict_get dataset_info ''dataset_card'' (JStr []) of
        Inl e \<Rightarrow> Inl e
      | Inr dataset_card \<Rightarrow>
          (case trim_card 8000 dataset_card of
             Some e \<Rightarrow> Inl e
           | None \<Rightarrow>
               (case dict_get original_dataset_info ''topics'' (JArr []) of
                  Inl e \<Rightarrow> Inl e
                | Inr topics \<Rightarrow>
                    if \<not> joinable topics then Inl TypeError
                    else (case dict_get original_dataset_info ''representative_words'' (JArr []) of
                       Inl e \<Rightarrow> Inl e
                     | Inr representative_words \<Rightarrow>
                         if \<not> joinable representative_words then Inl TypeError
                         else (case llm dataset_info original_dataset_info of
                            Inl msg \<Rightarrow> Inr (default_verdict msg)
                          | Inr content \<Rightarrow> Inr (extract_json_from_text loads (py_strip content)))))))"

text \<open>
  The loop body of \<^verbatim>\<open>fine_filter_kaggle.process_kaggle_datasets_file\<close>, and the function
  itself; the enrichment has a function of the same name, so this one carries a suffix.
\<close>

definition classify_kaggle_dataset :: "capability \<Rightarrow> (string \<Rightarrow> json option) \<Rightarrow> json \<Rightarrow> json \<Rightarrow> exn + json" where
  "classify_kaggle_dataset llm loads original_dataset_info ds =
     (case ds of
        JObj kv \<Rightarrow>
          (case check_downstream_usage_kaggle llm loads ds original_dataset_info of
             Inl e \<Rightarrow> Inl e
           | Inr downstream_result \<Rightarrow>
               Inr (JObj [(''ref'', get_or kv ''ref'' JNull),
                          (''title'', get_or kv ''title'' JNull),
                          (''license'', get_or kv ''licenseName'' JNull),
                          (''downstream_usage'', downstream_result)]))
      | _ \<Rightarrow> Inl AttributeError)"

definition process_kaggle_datasets_file_filter ::
  "capability \<Rightarrow> (string \<Rightarrow> json option) \<Rightarrow> string \<Rightarrow> string \<Rightarrow> json \<Rightarrow> files \<Rightarrow> exn + files" where
  "process_kaggle_datasets_file_filter llm loads input_filename output_filename original_dataset_info fs =
     (case fs input_filename of
        None \<Rightarrow> Inr fs
      | Some datasets \<Rightarrow>
          (case py_iter datasets of
             Inl e \<Rightarrow> Inl e
           | Inr entries \<Rightarrow>
               (case for_each (classify_kaggle_dataset llm loads original_dataset_info) entries of
                  Inl e \<Rightarrow> Inl e
                | Inr processed_datasets \<Rightarrow> Inr (fs(output_filename \<mapsto> JArr processed_datasets)))))"

text \<open>\<^verbatim>\<open>agent.fine_filter_kaggle\<close> and \<^verbatim>\<open>filter_kaggle\<close>.\<close>

definition processed_kaggle_file :: "string \<Rightarrow> string" where
  "processed_kaggle_file KEYWORD = ''processed_kaggle_'' @ KEYWORD @ ''.json''"

definition final_processed_kaggle_file :: "string \<Rightarrow> string" where
  "final_processed_kaggle_file KEYWORD = ''final_processed_kaggle_'' @ KEYWORD @ ''.json''"

definition fine_filter_kaggle ::
  "capability \<Rightarrow> (string \<Rightarrow> json option) \<Rightarrow> string \<Rightarrow> json \<Rightarrow> files \<Rightarrow> exn + files" where
  "fine_filter_kaggle llm loads representative_term dataset_info fs =
     process_kaggle_datasets_file_filter llm loads (processed_kaggle_file representative_term)
       (final_processed_kaggle_file representative_term) dataset_info fs"

text \<open>Sample texts of the closed examples; \<open>sample_loads\<close> is \<^verbatim>\<open>json.loads\<close> on them.\<close>

definition sample_answer :: string where
  \<open>sample_answer = ''{"is_downstream": true, "reason": "uses BRSET"}''\<close>

definition sample_verdict :: json where
  "sample_verdict = JObj [(''is_downstream'', JBool True), (''reason'', JStr ''uses BRSET'')]"

definition sample_loads :: "string \<Rightarrow> json option" where
  "sample_loads s = (if s = sample_answer then Some sample_verdict else None)"

definition fenced_sample :: string where
  "fenced_sample = ''Here is my answer:'' @ [CHR 0x0A] @ fence_json @ [CHR 0x0A] @ sample_answer
                     @ [CHR 0x0A] @ fence"

definition prose_sample :: string where
  "prose_sample = ''I cannot decide.''"

section \<open>The remote services\<close>

text \<open>\<^verbatim>\<open>str.lower\<close> on the code points below 256, and \<^verbatim>\<open>p in s\<close> for texts.\<close>

definition lower_char :: "char \<Rightarrow> char" where
  "lower_char c =
     (let n = (of_char c :: nat)
      in if (65 \<le> n \<and> n \<le> 90) \<or> (192 \<le> n \<and> n \<le> 222 \<and> n \<noteq> 215) then char_of (n + 32) else c)"

definition py_lower :: "string \<Rightarrow> string" where
  "py_lower s = map lower_char s"

fun contains :: "string \<Rightarrow> string \<Rightarrow> bool" where
  "contains p [] = (p = [])"
| "contains p (c # cs) = (starts_with p (c # cs) \<or> contains p cs)"

text \<open>
  \<^verbatim>\<open>int(s)\<close> for a text: white space around (for \<^verbatim>\<open>int\<close> that is 9 to 13, 32, 133 and
  160), a sign, decimal digits with single underscores between them, at most 4300
  digits. \<open>None\<close> is \<^verbatim>\<open>ValueError\<close>.
\<close>

definition is_int_space :: "char \<Rightarrow> bool" where
  "is_int_space c =
     (let n = (of_char c :: nat) in (9 \<le> n \<and> n \<le> 13) \<or> n = 32 \<or> n = 133 \<or> n = 160)"

definition is_digit :: "char \<Rightarrow> bool" where
  "is_digit c = (let n = (of_char c :: nat) in 48 \<le> n \<and> n \<le> 57)"

definition digit_val :: "char \<Rightarrow> nat" where
  "digit_val c = of_char c - 48"

fun parse_digits :: "nat \<Rightarrow> string \<Rightarrow> nat option" where
  "parse_digits acc [] = Some acc"
| "parse_digits acc [c] = (if is_digit c then Some (10 * acc + digit_val c) else None)"
| "parse_digits acc (c # d # ds) =
     (if is_digit c then parse_digits (10 * acc + digit_val c) (d # ds)
      else if c = CHR ''_'' \<and> is_digit d then parse_digits (10 * acc + digit_val d) ds
      else None)"

definition py_int :: "string \<Rightarrow> int option" where
  "py_int s =
     (let t = rev (dropWhile is_int_space (rev (dropWhile is_int_space s)));
          negative = (take 1 t = ''-'');
          u = (if take 1 t = ''-'' \<or> take 1 t = ''+'' then drop 1 t else t)
      in case u of
           [] \<Rightarrow> None
         | c # cs \<Rightarrow>
             if is_digit c \<and> length (filter is_digit u) \<le> 4300
             then map_option (\<lambda>n. if negative then - int n else int n) (parse_digits (digit_val c) cs)
             else None)"

text \<open>
  What \<^verbatim>\<open>requests.get\<close> gives: a response, or one of the exceptions the code tells
  apart (\<^verbatim>\<open>ConnectTimeout\<close>, any other \<^verbatim>\<open>RequestException\<close>). \<open>resp_json\<close> is
  \<^verbatim>\<open>response.json()\<close>, \<open>None\<close> where it raises.
\<close>

record response =
  status_code :: int
  headers :: "(string \<times> string) list"
  resp_text :: string
  resp_json :: "json option"

datatype reply = Response response | ConnectTimeout | RequestError

text \<open>\<^verbatim>\<open>response.headers.get(name)\<close>: the names of headers are compared without case.\<close>

definition header_get :: "(string \<times> string) list \<Rightarrow> string \<Rightarrow> string option" where
  "header_get hs name = map_of (map (\<lambda>p. (py_lower (fst p), snd p)) hs) (py_lower name)"

text \<open>\<^verbatim>\<open>int(headers.get(name, default))\<close>; \<open>None\<close> is the \<^verbatim>\<open>ValueError\<close> of \<^verbatim>\<open>int\<close>.\<close>

definition header_int :: "(string \<times> string) list \<Rightarrow> string \<Rightarrow> int \<Rightarrow> int option" where
  "header_int hs name dflt = (case header_get hs name of None \<Rightarrow> Some dflt | Some v \<Rightarrow> py_int v)"

text \<open>
  The requests the adapters send, and what a run leaves behind: the requests in the order
  sent, the sleeps with their seconds, the error lines with status and body.
  \<open>Sleep_until_reset\<close> is the sleep of a quota check, until the reset time the header
  gives and five seconds more; with no such header the caller's default stands in.
  \<open>Print_status\<close> is an error line that names the status only.
\<close>

datatype request =
    Search_repositories string int int int int
  | List_hub_datasets string
  | List_kaggle_datasets string int int
  | Get_readme json
  | Get_hub_card json
  | Get_hub_tree json json
  | View_kaggle_dataset json

datatype event =
    Get request
  | Sleep int
  | Sleep_until_reset "int option"
  | Print_error int string
  | Print_status int
  | Print_fail

text \<open>
  A run answers its requests from a script, the replies of the service in the order the
  requests are sent. \<open>Starved\<close> is a run that does not return: it waits for a reply past
  the end of the script, or for a lock that is never released. \<open>Raised\<close> is an exception
  that left the function.
\<close>

datatype 'a outcome = Done 'a | Raised exn | Starved

type_synonym 'a run = "'a outcome \<times> reply list \<times> event list"

text \<open>The seconds of the sleeps of a run, in order.\<close>

definition sleeps :: "event list \<Rightarrow> int list" where
  "sleeps trace = concat (map (\<lambda>e. case e of Sleep d \<Rightarrow> [d] | _ \<Rightarrow> []) trace)"

text \<open>
  The platform a run stands on, each answer given for the events of the run so far:
  \<open>time_ns\<close> is the reading of \<^verbatim>\<open>time.time()\<close>, in nanoseconds; \<open>os_sleeps\<close> says whether
  the operating system carries out a sleep of so many nanoseconds; \<open>recursion_room\<close> is
  the number of nested calls of \<^verbatim>\<open>fetch_recursive_file_paths\<close> for which the recursion limit
  of the interpreter leaves room.
\<close>

record platform =
  time_ns :: "event list \<Rightarrow> int"
  os_sleeps :: "event list \<Rightarrow> int \<Rightarrow> bool"
  recursion_room :: nat

text \<open>
  \<^verbatim>\<open>time.sleep(secs)\<close> for an \<^verbatim>\<open>int\<close>. The length is converted to nanoseconds in 64 bits:
  beyond 9223372036 seconds, on either side, that raises \<^verbatim>\<open>OverflowError\<close>. A negative
  length raises \<^verbatim>\<open>ValueError\<close>. What is left is handed to the operating system. A sleep of
  up to a minute is carried out; of a longer one the platform says whether it is, and
  \<^verbatim>\<open>OSError\<close> is raised where it is not (CPython 3.11 on Linux sleeps until a deadline on
  the monotonic clock, and a deadline past the last instant of that clock is refused).
  \<open>None\<close> is a sleep that took place.
\<close>

definition sleep_max :: int where
  "sleep_max = 9223372036"

definition time_sleep :: "platform \<Rightarrow> event list \<Rightarrow> int \<Rightarrow> exn option" where
  "time_sleep plat trace secs =
     (if secs > sleep_max \<or> secs < - sleep_max then Some OverflowError
      else if secs < 0 then Some ValueError
      else if secs \<le> 60 \<or> os_sleeps plat trace (secs * 1000000000) then None
      else Some OSError)"

text \<open>
  The line \<^verbatim>\<open>print(f"... {wait_time}s ...")\<close> that stands before each sleep of a backoff:
  the conversion of an \<^verbatim>\<open>int\<close> of more than 4300 digits to text raises \<^verbatim>\<open>ValueError\<close>.
  \<open>print_and_sleep\<close> is that line and the \<^verbatim>\<open>time.sleep(wait_time)\<close> after it.
\<close>

definition printable :: "int \<Rightarrow> bool" where
  "printable n = (\<bar>n\<bar> < 10 ^ 4300)"

definition print_and_sleep :: "platform \<Rightarrow> event list \<Rightarrow> int \<Rightarrow> exn option" where
  "print_and_sleep plat trace wait_time =
     (if \<not> printable wait_time then Some ValueError else time_sleep plat trace wait_time)"

text \<open>
  The sleep of a quota check, \<^verbatim>\<open>time.sleep(max(reset - time.time(), 0) + 5)\<close>, for a reset
  time in seconds. The difference is one of floating-point numbers: an \<^verbatim>\<open>int\<close> of
  \<^verbatim>\<open>2**1024 - 2**970\<close> or more, on either side, cannot be converted (\<^verbatim>\<open>OverflowError\<close>).
  The length is taken here in whole nanoseconds, the rounding of the floating-point
  arithmetic left out; \<^verbatim>\<open>time.sleep\<close> raises \<^verbatim>\<open>OverflowError\<close> for a length that does not
  fit 64 bits of nanoseconds, and the operating system is asked as above.
\<close>

definition float_limit :: int where
  "float_limit = 2 ^ 1024 - 2 ^ 970"

definition sleep_until :: "platform \<Rightarrow> event list \<Rightarrow> int \<Rightarrow> exn option" where
  "sleep_until plat trace reset_time =
     (if \<bar>reset_time\<bar> \<ge> float_limit then Some OverflowError
      else
        (let wait_ns = max (reset_time * 1000000000 - time_ns plat trace) 0 + 5000000000 in
         if wait_ns > 2 ^ 63 - 1 then Some OverflowError
         else if wait_ns \<le> 60000000000 \<or> os_sleeps plat trace wait_ns then None
         else Some OSError))"

subsection \<open>The code host\<close>

text \<open>
  \<^verbatim>\<open>check_rate_limit\<close>: \<open>Some\<close> the sleep when the quota is used up (the function returns
  \<^verbatim>\<open>True\<close>), \<open>None\<close> when it is not (\<^verbatim>\<open>False\<close>). With no reset header the reset time is
  \<^verbatim>\<open>int(time.time() + 60)\<close>, of a clock that reads a time after 1970.
\<close>

definition check_rate_limit :: "platform \<Rightarrow> event list \<Rightarrow> (string \<times> string) list \<Rightarrow> exn + event option" where
  "check_rate_limit plat trace hs =
     (case header_int hs ''X-RateLimit-Remaining'' 1 of
        None \<Rightarrow> Inl ValueError
      | Some remaining \<Rightarrow>
          (case (case header_get hs ''X-RateLimit-Reset'' of
                   None \<Rightarrow> Some None
                 | Some v \<Rightarrow> map_option Some (py_int v)) of
             None \<Rightarrow> Inl ValueError
           | Some reset_time \<Rightarrow>
               if remaining = 0 then
                 (case sleep_until plat trace
                         (case reset_time of
                            None \<Rightarrow> time_ns plat trace div 1000000000 + 60
                          | Some t \<Rightarrow> t) of
                    Some e \<Rightarrow> Inl e
                  | None \<Rightarrow> Inr (Some (Sleep_until_reset reset_time)))
               else Inr None))"

text \<open>
  \<^verbatim>\<open>items = response.json().get('items', [])\<close>, the test \<^verbatim>\<open>if not items\<close> and
  \<^verbatim>\<open>all_repos.extend(items)\<close>: \<open>None\<close> ends the paging, \<open>Some xs\<close> are the items to add.
\<close>

definition page_items :: "response \<Rightarrow> exn + json list option" where
  "page_items r =
     (case resp_json r of
        None \<Rightarrow> Inl JSONDecodeError
      | Some doc \<Rightarrow>
          (case dict_get doc ''items'' (JArr []) of
             Inl e \<Rightarrow> Inl e
           | Inr items \<Rightarrow>
               if \<not> truthy items then Inr None
               else (case py_iter items of Inl e \<Rightarrow> Inl e | Inr xs \<Rightarrow> Inr (Some xs))))"

definition rate_limited :: "response \<Rightarrow> bool" where
  "rate_limited r = (status_code r = 403 \<and> contains ''rate limit'' (py_lower (resp_text r)))"

text \<open>
  \<^verbatim>\<open>search_repositories_with_date_range\<close> from page \<open>page\<close> on, with the repositories
  collected so far. The dates are the days the \<^verbatim>\<open>%Y-%m-%d\<close> texts name. No handler stands
  around \<^verbatim>\<open>requests.get\<close>. A 403 that speaks of the rate limit while the quota is not
  used up falls through to the reading of the items.
\<close>

fun search_pages ::
  "platform \<Rightarrow> string \<Rightarrow> int \<Rightarrow> int \<Rightarrow> int \<Rightarrow> int \<Rightarrow> int \<Rightarrow> json list \<Rightarrow> reply list \<Rightarrow> event list \<Rightarrow> json list run" where
  "search_pages plat keyword start_date end_date per_page max_pages page all_repos [] trace =
     (if page > max_pages then (Done all_repos, [], trace)
      else (Starved, [], trace @ [Get (Search_repositories keyword start_date end_date per_page page)]))"
| "search_pages plat keyword start_date end_date per_page max_pages page all_repos (rp # rest) trace =
     (if page > max_pages then (Done all_repos, rp # rest, trace)
      else
        (let sent = trace @ [Get (Search_repositories keyword start_date end_date per_page page)] in
         case rp of
           ConnectTimeout \<Rightarrow> (Raised RequestException, rest, sent)
         | RequestError \<Rightarrow> (Raised RequestException, rest, sent)
         | Response r \<Rightarrow>
             (case (if rate_limited r then check_rate_limit plat sent (headers r) else Inr None) of
                Inl e \<Rightarrow> (Raised e, rest, sent)
              | Inr (Some slept) \<Rightarrow>
                  search_pages plat keyword start_date end_date per_page max_pages page all_repos rest
                    (sent @ [slept])
              | Inr None \<Rightarrow>
                  if \<not> rate_limited r \<and> status_code r \<noteq> 200
                  then (Done all_repos, rest, sent @ [Print_error (status_code r) (resp_text r)])
                  else
                    (case page_items r of
                       Inl e \<Rightarrow> (Raised e, rest, sent)
                     | Inr None \<Rightarrow> (Done all_repos, rest, sent)
                     | Inr (Some items) \<Rightarrow>
                         search_pages plat keyword start_date end_date per_page max_pages (page + 1)
                           (all_repos @ items) rest sent))))"

definition search_repositories_with_date_range ::
  "platform \<Rightarrow> string \<Rightarrow> int \<Rightarrow> int \<Rightarrow> int \<Rightarrow> int \<Rightarrow> reply list \<Rightarrow> event list \<Rightarrow> json list run" where
  "search_repositories_with_date_range plat keyword start_date end_date per_page max_pages script trace =
     search_pages plat keyword start_date end_date per_page max_pages 1 [] script trace"

text \<open>
  A search that sends a request takes its reply from the script, so it returns with less
  of the script than it was given.
\<close>

lemma search_pages_script:
  "search_pages plat keyword start_date end_date per_page max_pages page all_repos script trace = (res, script', trace')
   \<Longrightarrow> length script' \<le> length script \<and> (page \<le> max_pages \<longrightarrow> script \<noteq> [] \<longrightarrow> length script' < length script)"
proof (induction plat keyword start_date end_date per_page max_pages page all_repos script trace
    arbitrary: res script' trace' rule: search_pages.induct)
  case (1 plat keyword start_date end_date per_page max_pages page all_repos trace)
  then show ?case by (simp split: if_splits)
next
  case (2 plat keyword start_date end_date per_page max_pages page all_repos rp rest trace)
  let ?sent = "trace @ [Get (Search_repositories keyword start_date end_date per_page page)]"
  show ?case
  proof (cases "page > max_pages")
    case True
    with "2.prems" show ?thesis by simp
  next
    case False
    show ?thesis
    proof (cases rp)
      case (Response r)
      show ?thesis
      proof (cases "if rate_limited r then check_rate_limit plat ?sent (headers r) else Inr None")
        case (Inl e)
        with False Response "2.prems" show ?thesis by (simp add: Let_def)
      next
        case (Inr w)
        show ?thesis
        proof (cases w)
          case (Some slept)
          with Inr False Response "2.prems"
          have "search_pages plat keyword start_date end_date per_page max_pages page all_repos rest
                  (?sent @ [slept]) = (res, script', trace')"
            by (simp add: Let_def)
          from "2.IH"(2) [OF False refl Response Inr Some this]
          show ?thesis by simp
        next
          case None
          show ?thesis
          proof (cases "\<not> rate_limited r \<and> status_code r \<noteq> 200")
            case True
            with None Inr False Response "2.prems" show ?thesis
              by (auto simp: Let_def)
          next
            case stay: False
            show ?thesis
            proof (cases "page_items r")
              case (Inl e)
              with stay None Inr False Response "2.prems" show ?thesis
                by (auto simp: Let_def)
            next
              case items: (Inr found)
              show ?thesis
              proof (cases found)
                case None
                with items stay \<open>w = None\<close> Inr False Response "2.prems" show ?thesis
                  by (auto simp: Let_def)
              next
                case (Some xs)
                with items stay \<open>w = None\<close> Inr False Response "2.prems"
                have "search_pages plat keyword start_date end_date per_page max_pages (page + 1)
                        (all_repos @ xs) rest ?sent = (res, script', trace')"
                  by (auto simp: Let_def)
                from "2.IH"(1) [OF False refl Response Inr \<open>w = None\<close> stay items Some this]
                show ?thesis by simp
              qed
            qed
          qed
        qed
      qed
    next
      case ConnectTimeout
      with False "2.prems" show ?thesis by (simp add: Let_def)
    next
      case RequestError
      with False "2.prems" show ?thesis by (simp add: Let_def)
    qed
  qed
qed

lemma search_done_shrinks:
  assumes "search_repositories_with_date_range plat keyword start_date end_date 100 10 script trace
             = (Done repos, script', trace')"
  shows "length script' < length script"
proof -
  from assms have run: "search_pages plat keyword start_date end_date 100 10 1 [] script trace
                          = (Done repos, script', trace')"
    by (simp add: search_repositories_with_date_range_def)
  then have "script \<noteq> []" by auto
  with search_pages_script [OF run] show ?thesis by simp
qed

text \<open>
  A \<^verbatim>\<open>datetime\<close> is its count of microseconds since the first instant of year 1, up to
  the last instant of year 9999. \<^verbatim>\<open>timedelta(days=d)\<close> raises \<^verbatim>\<open>OverflowError\<close> beyond
  999999999 days, and so does a sum that leaves the range. \<open>day_of\<close> is the day that
  \<^verbatim>\<open>strftime("%Y-%m-%d")\<close> names.
\<close>

definition usec_per_day :: int where
  "usec_per_day = 86400000000"

definition datetime_max :: int where
  "datetime_max = 3652059 * usec_per_day - 1"

definition datetime_add_days :: "int \<Rightarrow> int \<Rightarrow> exn + int" where
  "datetime_add_days t days =
     (if \<bar>days\<bar> > 999999999 then Inl OverflowError
      else if t + days * usec_per_day < 0 \<or> t + days * usec_per_day > datetime_max then Inl OverflowError
      else Inr (t + days * usec_per_day))"

definition day_of :: "int \<Rightarrow> int" where
  "day_of t = t div usec_per_day"

text \<open>
  The loop of \<^verbatim>\<open>partition_and_search\<close>, which calls the search with the page size and
  the page count of its defaults (100 and 10).
\<close>

function partition_loop ::
  "platform \<Rightarrow> string \<Rightarrow> int \<Rightarrow> int \<Rightarrow> int \<Rightarrow> json list \<Rightarrow> reply list \<Rightarrow> event list \<Rightarrow> json list run" where
  "partition_loop plat keyword end_date interval_days current all_results script trace =
     (if current < end_date then
        (case datetime_add_days current interval_days of
           Inl e \<Rightarrow> (Raised e, script, trace)
         | Inr stepped \<Rightarrow>
             (case search_repositories_with_date_range plat keyword (day_of current)
                     (day_of (min stepped end_date)) 100 10 script trace of
                (Done repos, script', trace') \<Rightarrow>
                  partition_loop plat keyword end_date interval_days (min stepped end_date)
                    (all_results @ repos) script' trace'
              | (Raised e, script', trace') \<Rightarrow> (Raised e, script', trace')
              | (Starved, script', trace') \<Rightarrow> (Starved, script', trace')))
      else (Done all_results, script, trace))"
  by pat_completeness auto
termination
  by (relation "measure (\<lambda>(plat, keyword, end_date, interval_days, current, all_results, script, trace). length script)")
    (auto dest: search_done_shrinks [OF sym])

definition partition_and_search ::
  "platform \<Rightarrow> string \<Rightarrow> int \<Rightarrow> int \<Rightarrow> int \<Rightarrow> reply list \<Rightarrow> event list \<Rightarrow> json list run" where
  "partition_and_search plat keyword start_date end_date interval_days script trace =
     partition_loop plat keyword end_date interval_days start_date [] script trace"

text \<open>
  \<^verbatim>\<open>search_github\<close>, the search stage of the code host: the range of the source, from
  \<^verbatim>\<open>datetime(2025, 1, 1)\<close> to \<^verbatim>\<open>datetime(2025, 4, 15)\<close>, in intervals of the default 30
  days, and \<^verbatim>\<open>save_repositories_to_file\<close>, which opens the raw artifact for writing and
  dumps the list.
\<close>

definition jan_1_2025 :: int where
  "jan_1_2025 = 739251 * usec_per_day"

definition apr_15_2025 :: int where
  "apr_15_2025 = 739355 * usec_per_day"

definition github_repos_file :: "string \<Rightarrow> string" where
  "github_repos_file KEYWORD = ''github_repos_'' @ KEYWORD @ ''.json''"


subsection \<open>The hub\<close>

text \<open>
  \<^verbatim>\<open>crawl_huggingface.search_datasets_by_keyword\<close> from attempt \<open>attempt\<close> on. After the
  loop, and after the \<^verbatim>\<open>break\<close> of the error branch, the failure line is printed and the
  empty list returned. \<^verbatim>\<open>len(items)\<close> in the progress line needs a sized document.
\<close>

fun hub_attempts :: "platform \<Rightarrow> string \<Rightarrow> int \<Rightarrow> nat \<Rightarrow> reply list \<Rightarrow> event list \<Rightarrow> json run" where
  "hub_attempts plat keyword max_retries attempt [] trace =
     (if int attempt \<ge> max_retries then (Done (JArr []), [], trace @ [Print_fail])
      else (Starved, [], trace @ [Get (List_hub_datasets keyword)]))"
| "hub_attempts plat keyword max_retries attempt (rp # rest) trace =
     (if int attempt \<ge> max_retries then (Done (JArr []), rp # rest, trace @ [Print_fail])
      else
        (let sent = trace @ [Get (List_hub_datasets keyword)] in
         case rp of
           ConnectTimeout \<Rightarrow> (Raised RequestException, rest, sent)
         | RequestError \<Rightarrow> (Raised RequestException, rest, sent)
         | Response r \<Rightarrow>
             if status_code r = 200 then
               (case resp_json r of
                  None \<Rightarrow> (Raised JSONDecodeError, rest, sent)
                | Some items \<Rightarrow>
                    (case py_iter items of
                       Inl e \<Rightarrow> (Raised e, rest, sent)
                     | Inr xs \<Rightarrow> (Done items, rest, sent)))
             else if status_code r = 429 then
               (case header_int (headers r) ''Retry-After'' 5 of
                  None \<Rightarrow> (Raised ValueError, rest, sent)
                | Some retry_after \<Rightarrow>
                    (let wait_time = min (retry_after * 2 ^ attempt) 60 in
                     case print_and_sleep plat sent wait_time of
                       Some e \<Rightarrow> (Raised e, rest, sent)
                     | None \<Rightarrow>
                         hub_attempts plat keyword max_retries (Suc attempt) rest (sent @ [Sleep wait_time])))
             else (Done (JArr []), rest, sent @ [Print_error (status_code r) (resp_text r), Print_fail])))"

definition search_hub_datasets :: "platform \<Rightarrow> string \<Rightarrow> int \<Rightarrow> reply list \<Rightarrow> event list \<Rightarrow> json run" where
  "search_hub_datasets plat keyword max_retries script trace = hub_attempts plat keyword max_retries 0 script trace"

text \<open>
  \<^verbatim>\<open>search_huggingface\<close>, the search stage of the hub: the search with its default of 5
  attempts, and \<^verbatim>\<open>save_datasets_to_file\<close>, which dumps what the search returned.
\<close>

definition huggingface_datasets_file :: "string \<Rightarrow> string" where
  "huggingface_datasets_file KEYWORD = ''huggingface_datasets_'' @ KEYWORD @ ''.json''"


subsection \<open>The competition catalog\<close>

text \<open>
  \<^verbatim>\<open>crawl_kaggle.search_datasets_by_keyword\<close> at page \<open>page\<close> and attempt \<open>attempt\<close>. The
  test on \<open>max_pages\<close> stands at the head of the outer loop; a retry leaves the page as
  it is, so the test gives there what it gave before. The handler catches every
  \<^verbatim>\<open>RequestException\<close>, to which the failure of \<^verbatim>\<open>response.json()\<close> belongs (requests 2.27
  and later); the \<^verbatim>\<open>ValueError\<close> of \<^verbatim>\<open>int\<close>, the \<^verbatim>\<open>TypeError\<close> of \<^verbatim>\<open>extend\<close> and what the
  sleep of a backoff raises do not.
\<close>

fun kaggle_pages ::
  "platform \<Rightarrow> string \<Rightarrow> int \<Rightarrow> int option \<Rightarrow> int \<Rightarrow> nat \<Rightarrow> json list \<Rightarrow> reply list \<Rightarrow> event list \<Rightarrow> json list run" where
  "kaggle_pages plat keyword per_page max_pages page attempt all_datasets [] trace =
     (if (case max_pages of None \<Rightarrow> False | Some m \<Rightarrow> m \<noteq> 0 \<and> page > m)
      then (Done all_datasets, [], trace)
      else (Starved, [], trace @ [Get (List_kaggle_datasets keyword page per_page)]))"
| "kaggle_pages plat keyword per_page max_pages page attempt all_datasets (rp # rest) trace =
     (if (case max_pages of None \<Rightarrow> False | Some m \<Rightarrow> m \<noteq> 0 \<and> page > m)
      then (Done all_datasets, rp # rest, trace)
      else
        (let sent = trace @ [Get (List_kaggle_datasets keyword page per_page)] in
         case rp of
           ConnectTimeout \<Rightarrow>
             kaggle_pages plat keyword per_page max_pages page (Suc attempt) all_datasets rest (sent @ [Sleep 10])
         | RequestError \<Rightarrow>
             kaggle_pages plat keyword per_page max_pages page (Suc attempt) all_datasets rest (sent @ [Sleep 10])
         | Response r \<Rightarrow>
             if status_code r = 200 then
               (case resp_json r of
                  None \<Rightarrow>
                    kaggle_pages plat keyword per_page max_pages page (Suc attempt) all_datasets rest
                      (sent @ [Sleep 10])
                | Some items \<Rightarrow>
                    if \<not> truthy items then (Done all_datasets, rest, sent)
                    else
                      (case py_iter items of
                         Inl e \<Rightarrow> (Raised e, rest, sent)
                       | Inr xs \<Rightarrow>
                           kaggle_pages plat keyword per_page max_pages (page + 1) 0 (all_datasets @ xs) rest sent))
             else if status_code r = 429 then
               (case header_int (headers r) ''Retry-After'' 5 of
                  None \<Rightarrow> (Raised ValueError, rest, sent)
                | Some retry_after \<Rightarrow>
                    (let wait_time = max (retry_after * 2 ^ attempt) 5 in
                     case print_and_sleep plat sent wait_time of
                       Some e \<Rightarrow> (Raised e, rest, sent)
                     | None \<Rightarrow>
                         kaggle_pages plat keyword per_page max_pages page (Suc attempt) all_datasets rest
                           (sent @ [Sleep wait_time])))
             else if status_code r = 503 then
               (case print_and_sleep plat sent (5 * 2 ^ attempt) of
                  Some e \<Rightarrow> (Raised e, rest, sent)
                | None \<Rightarrow>
                    kaggle_pages plat keyword per_page max_pages page (Suc attempt) all_datasets rest
                      (sent @ [Sleep (5 * 2 ^ attempt)]))
             else (Done all_datasets, rest, sent @ [Print_error (status_code r) (resp_text r)])))"

definition search_kaggle_datasets ::
  "platform \<Rightarrow> string \<Rightarrow> int \<Rightarrow> int option \<Rightarrow> reply list \<Rightarrow> event list \<Rightarrow> json list run" where
  "search_kaggle_datasets plat keyword per_page max_pages script trace =
     kaggle_pages plat keyword per_page max_pages 1 0 [] script trace"

text \<open>
  \<^verbatim>\<open>search_kaggle\<close>, the search stage of the competition catalog: the search with its
  defaults (pages of 100, no limit of pages), and \<^verbatim>\<open>save_datasets_to_file\<close>.
\<close>

definition kaggle_datasets_file :: "string \<Rightarrow> string" where
  "kaggle_datasets_file KEYWORD = ''kaggle_datasets_'' @ KEYWORD @ ''.json''"


section \<open>Enrichment\<close>

text \<open>
  A loop that runs one operation per record against the script, appends each result, and
  ends with the first operation that raises or does not return. It is the loop of
  \<^verbatim>\<open>process_repositories\<close> and of \<^verbatim>\<open>process_datasets\<close>.
\<close>

fun for_each_run ::
  "('a \<Rightarrow> reply list \<Rightarrow> event list \<Rightarrow> 'b run) \<Rightarrow> 'b list \<Rightarrow> 'a list \<Rightarrow> reply list \<Rightarrow> event list \<Rightarrow> 'b list run" where
  "for_each_run f done [] script trace = (Done done, script, trace)"
| "for_each_run f done (x # xs) script trace =
     (case f x script trace of
        (Done y, script', trace') \<Rightarrow> for_each_run f (done @ [y]) xs script' trace'
      | (Raised e, script', trace') \<Rightarrow> (Raised e, script', trace')
      | (Starved, script', trace') \<Rightarrow> (Starved, script', trace'))"

subsection \<open>The code host\<close>

text \<open>
  \<^verbatim>\<open>fetch_repo_readme\<close>. The two \<^verbatim>\<open>int\<close> of the quota headers and the sleep of the quota
  check stand inside the \<^verbatim>\<open>try\<close>, whose handlers catch request exceptions only. With no
  reset header the reset time is \<^verbatim>\<open>int(time.time())\<close>.
\<close>

fun fetch_repo_readme :: "platform \<Rightarrow> json \<Rightarrow> reply list \<Rightarrow> event list \<Rightarrow> string option run" where
  "fetch_repo_readme plat repo_full_name [] trace = (Starved, [], trace @ [Get (Get_readme repo_full_name)])"
| "fetch_repo_readme plat repo_full_name (rp # rest) trace =
     (let sent = trace @ [Get (Get_readme repo_full_name)] in
      case rp of
        ConnectTimeout \<Rightarrow> fetch_repo_readme plat repo_full_name rest (sent @ [Sleep 10])
      | RequestError \<Rightarrow> fetch_repo_readme plat repo_full_name rest (sent @ [Sleep 10])
      | Response r \<Rightarrow>
          (case header_int (headers r) ''X-RateLimit-Remaining'' 1 of
             None \<Rightarrow> (Raised ValueError, rest, sent)
           | Some remaining \<Rightarrow>
               (case (case header_get (headers r) ''X-RateLimit-Reset'' of
                        None \<Rightarrow> Some None
                      | Some v \<Rightarrow> map_option Some (py_int v)) of
                  None \<Rightarrow> (Raised ValueError, rest, sent)
                | Some reset \<Rightarrow>
                    if remaining = 0 \<or> status_code r = 403 \<or> status_code r = 429
                    then
                      (case sleep_until plat sent
                              (case reset of
                                 None \<Rightarrow> time_ns plat sent div 1000000000
                               | Some t \<Rightarrow> t) of
                         Some e \<Rightarrow> (Raised e, rest, sent)
                       | None \<Rightarrow> fetch_repo_readme plat repo_full_name rest (sent @ [Sleep_until_reset reset]))
                    else if status_code r = 200 then (Done (Some (resp_text r)), rest, sent)
                    else if status_code r = 404 then (Done None, rest, sent)
                    else (Done None, rest, sent @ [Print_status (status_code r)]))))"

text \<open>
  \<^verbatim>\<open>process_repository\<close>: the metadata first (the license name is read only from a truthy
  \<^verbatim>\<open>license\<close>, which then has to be a dict), then the readme; an empty readme is stored
  as null like a missing one.
\<close>

definition process_repository :: "platform \<Rightarrow> json \<Rightarrow> reply list \<Rightarrow> event list \<Rightarrow> json run" where
  "process_repository plat repo script trace =
     (case repo of
        JObj kv \<Rightarrow>
          (case (if truthy (get_or kv ''license'' JNull)
                 then dict_get (get_or kv ''license'' (JObj [])) ''name'' JNull
                 else Inr JNull) of
             Inl e \<Rightarrow> (Raised e, script, trace)
           | Inr license \<Rightarrow>
               (case fetch_repo_readme plat (get_or kv ''full_name'' (JStr [])) script trace of
                  (Done readme_content, script', trace') \<Rightarrow>
                    (Done (JObj [(''name'', get_or kv ''name'' JNull),
                                 (''full_name'', get_or kv ''full_name'' JNull),
                                 (''license'', license),
                                 (''topics'', get_or kv ''topics'' (JArr [])),
                                 (''readme'', (case readme_content of
                                                None \<Rightarrow> JNull
                                              | Some t \<Rightarrow> if t \<noteq> [] then JStr t else JNull))]),
                     script', trace')
                | (Raised e, script', trace') \<Rightarrow> (Raised e, script', trace')
                | (Starved, script', trace') \<Rightarrow> (Starved, script', trace')))
      | _ \<Rightarrow> (Raised AttributeError, script, trace))"

definition process_repositories :: "platform \<Rightarrow> json list \<Rightarrow> reply list \<Rightarrow> event list \<Rightarrow> json list run" where
  "process_repositories plat repos script trace = for_each_run (process_repository plat) [] repos script trace"

text \<open>
  \<^verbatim>\<open>clean_github_data\<close>: a file that cannot be loaded is an empty list; nothing is
  processed and nothing is written for a document that is falsy. \<^verbatim>\<open>len(repos)\<close> and the
  loop take what Python iterates.
\<close>

definition clean_github_data :: "platform \<Rightarrow> string \<Rightarrow> files \<Rightarrow> reply list \<Rightarrow> event list \<Rightarrow> files run" where
  "clean_github_data plat KEYWORD fs script trace =
     (let repos_data = (case fs (github_repos_file KEYWORD) of None \<Rightarrow> JArr [] | Some doc \<Rightarrow> doc) in
      if truthy repos_data then
        (case py_iter repos_data of
           Inl e \<Rightarrow> (Raised e, script, trace)
         | Inr repos \<Rightarrow>
             (case process_repositories plat repos script trace of
                (Done processed_data, script', trace') \<Rightarrow>
                  (Done (fs(processed_github_repos_file KEYWORD \<mapsto> JArr processed_data)), script', trace')
              | (Raised e, script', trace') \<Rightarrow> (Raised e, script', trace')
              | (Starved, script', trace') \<Rightarrow> (Starved, script', trace')))
      else (Done fs, script, trace))"

subsection \<open>The hub\<close>

text \<open>
  \<^verbatim>\<open>safe_request\<close> with its default \<^verbatim>\<open>backoff_factor\<close> of 2: \<open>Some\<close> the response of status
  200, \<open>None\<close> after another status that is not retried. The sleep after a 429 is the
  hint times the factor, the sleep after a 500 or 503 the factor to the attempt; what
  such a sleep raises is no request exception and leaves the function.
\<close>

fun safe_request :: "platform \<Rightarrow> request \<Rightarrow> nat \<Rightarrow> reply list \<Rightarrow> event list \<Rightarrow> response option run" where
  "safe_request plat url attempt [] trace = (Starved, [], trace @ [Get url])"
| "safe_request plat url attempt (rp # rest) trace =
     (let sent = trace @ [Get url] in
      case rp of
        ConnectTimeout \<Rightarrow> safe_request plat url attempt rest (sent @ [Sleep 10])
      | RequestError \<Rightarrow> safe_request plat url attempt rest (sent @ [Sleep 10])
      | Response r \<Rightarrow>
          if status_code r = 200 then (Done (Some r), rest, sent)
          else if status_code r = 429 then
            (case header_int (headers r) ''Retry-After'' 5 of
               None \<Rightarrow> (Raised ValueError, rest, sent)
             | Some retry_after \<Rightarrow>
                 (case print_and_sleep plat sent (retry_after * 2) of
                    Some e \<Rightarrow> (Raised e, rest, sent)
                  | None \<Rightarrow> safe_request plat url attempt rest (sent @ [Sleep (retry_after * 2)])))
          else if status_code r = 500 \<or> status_code r = 503 then
            (case print_and_sleep plat sent (2 ^ attempt) of
               Some e \<Rightarrow> (Raised e, rest, sent)
             | None \<Rightarrow> safe_request plat url (Suc attempt) rest (sent @ [Sleep (2 ^ attempt)]))
          else (Done None, rest, sent @ [Print_status (status_code r)]))"

lemma safe_request_script:
  "safe_request plat url attempt script trace = (res, script', trace') \<Longrightarrow>
     length script' \<le> length script \<and> (script \<noteq> [] \<longrightarrow> length script' < length script)"
proof (induction plat url attempt script trace arbitrary: res script' trace' rule: safe_request.induct)
  case (1 plat url attempt trace)
  then show ?case by simp
next
  case (2 plat url attempt rp rest trace)
  let ?sent = "trace @ [Get url]"
  show ?case
  proof (cases rp)
    case ConnectTimeout
    with "2.prems" have "safe_request plat url attempt rest (?sent @ [Sleep 10]) = (res, script', trace')"
      by (simp add: Let_def)
    from "2.IH"(3) [OF refl ConnectTimeout this] show ?thesis by simp
  next
    case RequestError
    with "2.prems" have "safe_request plat url attempt rest (?sent @ [Sleep 10]) = (res, script', trace')"
      by (simp add: Let_def)
    from "2.IH"(4) [OF refl RequestError this] show ?thesis by simp
  next
    case (Response r)
    show ?thesis
    proof (cases "status_code r = 200")
      case True
      with Response "2.prems" show ?thesis by (auto simp: Let_def)
    next
      case not_ok: False
      show ?thesis
      proof (cases "status_code r = 429")
        case True
        show ?thesis
        proof (cases "header_int (headers r) ''Retry-After'' 5")
          case None
          with True not_ok Response "2.prems" show ?thesis by (auto simp: Let_def)
        next
          case (Some retry_after)
          show ?thesis
          proof (cases "print_and_sleep plat ?sent (retry_after * 2)")
            case raised: (Some e)
            with Some \<open>status_code r = 429\<close> not_ok Response "2.prems" show ?thesis
              by (auto simp: Let_def)
          next
            case None
            with Some \<open>status_code r = 429\<close> not_ok Response "2.prems"
            have "safe_request plat url attempt rest (?sent @ [Sleep (retry_after * 2)]) = (res, script', trace')"
              by (simp add: Let_def)
            from "2.IH"(1) [OF refl Response not_ok \<open>status_code r = 429\<close> Some None this]
            show ?thesis by simp
          qed
        qed
      next
        case not_429: False
        show ?thesis
        proof (cases "status_code r = 500 \<or> status_code r = 503")
          case True
          show ?thesis
          proof (cases "print_and_sleep plat ?sent (2 ^ attempt)")
            case (Some e)
            with True not_429 not_ok Response "2.prems" show ?thesis by (auto simp: Let_def)
          next
            case None
            with True not_429 not_ok Response "2.prems"
            have "safe_request plat url (Suc attempt) rest (?sent @ [Sleep (2 ^ attempt)]) = (res, script', trace')"
              by (auto simp: Let_def)
            from "2.IH"(2) [OF refl Response not_ok not_429 True None this] show ?thesis by simp
          qed
        next
          case False
          with not_429 not_ok Response "2.prems" show ?thesis by (auto simp: Let_def)
        qed
      qed
    qed
  qed
qed

lemma safe_request_done_shrinks:
  assumes "safe_request plat url attempt script trace = (Done r, script', trace')"
  shows "length script' < length script"
proof -
  from assms have "script \<noteq> []" by auto
  with safe_request_script [OF assms] show ?thesis by simp
qed

text \<open>
  \<^verbatim>\<open>extract_license\<close> over the tags: the first tag that starts with \<^verbatim>\<open>license:\<close>, with
  every \<^verbatim>\<open>license:\<close> in it removed (\<^verbatim>\<open>str.replace\<close>); a tag that is not a text has no
  \<^verbatim>\<open>startswith\<close>.
\<close>

fun remove_all :: "string \<Rightarrow> nat \<Rightarrow> string \<Rightarrow> string" where
  "remove_all p skip [] = []"
| "remove_all p skip (c # cs) =
     (if 0 < skip then remove_all p (skip - 1) cs
      else if starts_with p (c # cs) then remove_all p (length p - 1) cs
      else c # remove_all p 0 cs)"

fun extract_license :: "json list \<Rightarrow> exn + json" where
  "extract_license [] = Inr JNull"
| "extract_license (JStr tag # tags) =
     (if starts_with ''license:'' tag then Inr (JStr (remove_all ''license:'' 0 tag))
      else extract_license tags)"
| "extract_license (_ # tags) = Inl AttributeError"

text \<open>
  \<^verbatim>\<open>fetch_dataset_card\<close>: the text of the card, or \<open>None\<close>. A response of status 200 is
  truthy.
\<close>

definition fetch_dataset_card :: "platform \<Rightarrow> json \<Rightarrow> reply list \<Rightarrow> event list \<Rightarrow> json run" where
  "fetch_dataset_card plat dataset_id script trace =
     (case safe_request plat (Get_hub_card dataset_id) 0 script trace of
        (Done (Some r), script', trace') \<Rightarrow> (Done (JStr (resp_text r)), script', trace')
      | (Done None, script', trace') \<Rightarrow> (Done JNull, script', trace')
      | (Raised e, script', trace') \<Rightarrow> (Raised e, script', trace')
      | (Starved, script', trace') \<Rightarrow> (Starved, script', trace'))"

text \<open>\<^verbatim>\<open>item[k]\<close>: \<^verbatim>\<open>KeyError\<close> for a dict without the key, \<^verbatim>\<open>TypeError\<close> for what is no dict.\<close>

definition subscript :: "json \<Rightarrow> string \<Rightarrow> exn + json" where
  "subscript item k =
     (case item of
        JObj kv \<Rightarrow> (case map_of kv k of None \<Rightarrow> Inl KeyError | Some v \<Rightarrow> Inr v)
      | _ \<Rightarrow> Inl TypeError)"

text \<open>
  \<^verbatim>\<open>fetch_recursive_file_paths\<close> descends into every directory of a listing before it
  goes on with the next item. \<open>walk_tree\<close> runs that descent with the listings still to
  finish on a stack, the innermost first: the head of the stack is what is left of the
  listing being read, and an empty head is a call that returns to its caller. A listing
  that cannot be fetched is an empty one. The listing being read is that of a call nested
  as deep as there are callers on the stack; the call for a directory in it is nested one
  deeper, and where the recursion limit leaves no room for it, it raises
  \<^verbatim>\<open>RecursionError\<close> before its request is answered.
\<close>

function walk_tree ::
  "platform \<Rightarrow> json \<Rightarrow> json list list \<Rightarrow> json list \<Rightarrow> reply list \<Rightarrow> event list \<Rightarrow> json list run" where
  "walk_tree plat dataset_id [] all_files script trace = (Done all_files, script, trace)"
| "walk_tree plat dataset_id ([] # callers) all_files script trace =
     walk_tree plat dataset_id callers all_files script trace"
| "walk_tree plat dataset_id ((item # items) # callers) all_files script trace =
     (case subscript item ''type'' of
        Inl e \<Rightarrow> (Raised e, script, trace)
      | Inr kind \<Rightarrow>
          if kind = JStr ''file'' then
            (case subscript item ''path'' of
               Inl e \<Rightarrow> (Raised e, script, trace)
             | Inr path \<Rightarrow> walk_tree plat dataset_id (items # callers) (all_files @ [path]) script trace)
          else if kind = JStr ''directory'' then
            (case subscript item ''path'' of
               Inl e \<Rightarrow> (Raised e, script, trace)
             | Inr sub_path \<Rightarrow>
                 if recursion_room plat \<le> length callers then (Raised RecursionError, script, trace)
                 else
                 (case safe_request plat (Get_hub_tree dataset_id sub_path) 0 script trace of
                    (Done None, script', trace') \<Rightarrow>
                      walk_tree plat dataset_id (items # callers) all_files script' trace'
                  | (Done (Some r), script', trace') \<Rightarrow>
                      (case resp_json r of
                         None \<Rightarrow> (Raised JSONDecodeError, script', trace')
                       | Some tree \<Rightarrow>
                           (case py_iter tree of
                              Inl e \<Rightarrow> (Raised e, script', trace')
                            | Inr sub_items \<Rightarrow>
                                walk_tree plat dataset_id (sub_items # items # callers) all_files script' trace'))
                  | (Raised e, script', trace') \<Rightarrow> (Raised e, script', trace')
                  | (Starved, script', trace') \<Rightarrow> (Starved, script', trace')))
          else walk_tree plat dataset_id (items # callers) all_files script trace)"
  by pat_completeness auto
termination
  by (relation "inv_image (less_than <*lex*> less_than)
        (\<lambda>(plat, dataset_id, stack, all_files, script, trace). (length script, length (concat stack) + length stack))")
    (auto dest: safe_request_done_shrinks [OF sym])

text \<open>The top-level call of \<^verbatim>\<open>fetch_recursive_file_paths\<close>, with the empty path.\<close>

definition fetch_recursive_file_paths :: "platform \<Rightarrow> json \<Rightarrow> reply list \<Rightarrow> event list \<Rightarrow> json list run" where
  "fetch_recursive_file_paths plat dataset_id script trace =
     (case safe_request plat (Get_hub_tree dataset_id (JStr [])) 0 script trace of
        (Done None, script', trace') \<Rightarrow> (Done [], script', trace')
      | (Done (Some r), script', trace') \<Rightarrow>
          (case resp_json r of
             None \<Rightarrow> (Raised JSONDecodeError, script', trace')
           | Some tree \<Rightarrow>
               (case py_iter tree of
                  Inl e \<Rightarrow> (Raised e, script', trace')
                | Inr items \<Rightarrow> walk_tree plat dataset_id [items] [] script' trace'))
      | (Raised e, script', trace') \<Rightarrow> (Raised e, script', trace')
      | (Starved, script', trace') \<Rightarrow> (Starved, script', trace'))"

text \<open>The body of the loop of \<^verbatim>\<open>process_datasets\<close>.\<close>

definition process_dataset :: "platform \<Rightarrow> json \<Rightarrow> reply list \<Rightarrow> event list \<Rightarrow> json run" where
  "process_dataset plat entry script trace =
     (case entry of
        JObj kv \<Rightarrow>
          (case py_iter (get_or kv ''tags'' (JArr [])) of
             Inl e \<Rightarrow> (Raised e, script, trace)
           | Inr tags \<Rightarrow>
               (case extract_license tags of
                  Inl e \<Rightarrow> (Raised e, script, trace)
                | Inr license_name \<Rightarrow>
                    (case fetch_dataset_card plat (get_or kv ''id'' JNull) script trace of
                       (Done readme, script', trace') \<Rightarrow>
                         (case fetch_recursive_file_paths plat (get_or kv ''id'' JNull) script' trace' of
                            (Done all_files, script'', trace'') \<Rightarrow>
                              (Done (JObj [(''id'', get_or kv ''id'' JNull),
                                           (''license'', license_name),
                                           (''dataset_card'', readme),
                                           (''files'', JArr all_files)]),
                               script'', trace'')
                          | (Raised e, script'', trace'') \<Rightarrow> (Raised e, script'', trace'')
                          | (Starved, script'', trace'') \<Rightarrow> (Starved, script'', trace''))
                     | (Raised e, script', trace') \<Rightarrow> (Raised e, script', trace')
                     | (Starved, script', trace') \<Rightarrow> (Starved, script', trace'))))
      | _ \<Rightarrow> (Raised AttributeError, script, trace))"

definition process_datasets :: "platform \<Rightarrow> json list \<Rightarrow> reply list \<Rightarrow> event list \<Rightarrow> json list run" where
  "process_datasets plat data script trace = for_each_run (process_dataset plat) [] data script trace"

definition processed_huggingface_file :: "string \<Rightarrow> string" where
  "processed_huggingface_file KEYWORD = ''processed_huggingface_'' @ KEYWORD @ ''.json''"

definition clean_huggingface_data :: "platform \<Rightarrow> string \<Rightarrow> files \<Rightarrow> reply list \<Rightarrow> event list \<Rightarrow> files run" where
  "clean_huggingface_data plat KEYWORD fs script trace =
     (let datasets = (case fs (huggingface_datasets_file KEYWORD) of None \<Rightarrow> JArr [] | Some doc \<Rightarrow> doc) in
      if truthy datasets then
        (case py_iter datasets of
           Inl e \<Rightarrow> (Raised e, script, trace)
         | Inr data \<Rightarrow>
             (case process_datasets plat data script trace of
                (Done processed, script', trace') \<Rightarrow>
                  (Done (fs(processed_huggingface_file KEYWORD \<mapsto> JArr processed)), script', trace')
              | (Raised e, script', trace') \<Rightarrow> (Raised e, script', trace')
              | (Starved, script', trace') \<Rightarrow> (Starved, script', trace')))
      else (Done fs, script, trace))"

subsection \<open>The competition catalog\<close>

text \<open>
  \<^verbatim>\<open>robust_request\<close> over \<^verbatim>\<open>rate_limited_get\<close>, with its default delay of 10. A 200 whose
  body is not JSON is the empty dict. On a request exception \<^verbatim>\<open>rate_limited_get\<close> calls
  itself while it holds \<^verbatim>\<open>_rate_lock\<close>, a lock that cannot be taken twice: the call waits
  for the lock it holds and does not return.
\<close>

fun robust_request :: "platform \<Rightarrow> request \<Rightarrow> nat \<Rightarrow> reply list \<Rightarrow> event list \<Rightarrow> json run" where
  "robust_request plat url attempt [] trace = (Starved, [], trace @ [Get url])"
| "robust_request plat url attempt (rp # rest) trace =
     (let sent = trace @ [Get url] in
      case rp of
        ConnectTimeout \<Rightarrow> (Starved, rest, sent @ [Sleep 10])
      | RequestError \<Rightarrow> (Starved, rest, sent @ [Sleep 10])
      | Response r \<Rightarrow>
          if status_code r = 200 then
            (Done (case resp_json r of None \<Rightarrow> JObj [] | Some doc \<Rightarrow> doc), rest, sent)
          else if status_code r = 429 then
            (case header_int (headers r) ''Retry-After'' 10 of
               None \<Rightarrow> (Raised ValueError, rest, sent)
             | Some retry_after \<Rightarrow>
                 (case print_and_sleep plat sent (retry_after * 2 ^ attempt) of
                    Some e \<Rightarrow> (Raised e, rest, sent)
                  | None \<Rightarrow>
                      robust_request plat url (Suc attempt) rest (sent @ [Sleep (retry_after * 2 ^ attempt)])))
          else if status_code r = 503 then
            (case print_and_sleep plat sent (10 * 2 ^ attempt) of
               Some e \<Rightarrow> (Raised e, rest, sent)
             | None \<Rightarrow> robust_request plat url (Suc attempt) rest (sent @ [Sleep (10 * 2 ^ attempt)]))
          else (Done (JObj []), rest, sent @ [Print_status (status_code r)]))"

definition get_kaggle_dataset_card :: "platform \<Rightarrow> json \<Rightarrow> reply list \<Rightarrow> event list \<Rightarrow> json run" where
  "get_kaggle_dataset_card plat dataset_ref script trace =
     (case robust_request plat (View_kaggle_dataset dataset_ref) 0 script trace of
        (Done data, script', trace') \<Rightarrow>
          (case dict_get data ''description'' (JStr []) of
             Inl e \<Rightarrow> (Raised e, script', trace')
           | Inr description \<Rightarrow> (Done description, script', trace'))
      | (Raised e, script', trace') \<Rightarrow> (Raised e, script', trace')
      | (Starved, script', trace') \<Rightarrow> (Starved, script', trace'))"

definition get_kaggle_dataset_files :: "platform \<Rightarrow> json \<Rightarrow> reply list \<Rightarrow> event list \<Rightarrow> json list run" where
  "get_kaggle_dataset_files plat dataset_ref script trace =
     (case robust_request plat (View_kaggle_dataset dataset_ref) 0 script trace of
        (Done data, script', trace') \<Rightarrow>
          (case dict_get data ''datasetFiles'' (JArr []) of
             Inl e \<Rightarrow> (Raised e, script', trace')
           | Inr files \<Rightarrow>
               (case py_iter files of
                  Inl e \<Rightarrow> (Raised e, script', trace')
                | Inr entries \<Rightarrow>
                    (case for_each (\<lambda>file. subscript file ''name'') entries of
                       Inl e \<Rightarrow> (Raised e, script', trace')
                     | Inr names \<Rightarrow> (Done names, script', trace'))))
      | (Raised e, script', trace') \<Rightarrow> (Raised e, script', trace')
      | (Starved, script', trace') \<Rightarrow> (Starved, script', trace'))"

text \<open>\<^verbatim>\<open>a or b\<close>.\<close>

definition py_or :: "json \<Rightarrow> json \<Rightarrow> json" where
  "py_or a b = (if truthy a then a else b)"

definition process_kaggle_dataset :: "platform \<Rightarrow> json \<Rightarrow> reply list \<Rightarrow> event list \<Rightarrow> json run" where
  "process_kaggle_dataset plat dataset script trace =
     (case dataset of
        JObj kv \<Rightarrow>
          (case get_kaggle_dataset_card plat (get_or kv ''ref'' (JStr [])) script trace of
             (Done dataset_card, script', trace') \<Rightarrow>
               (case get_kaggle_dataset_files plat (get_or kv ''ref'' (JStr [])) script' (trace' @ [Sleep 1]) of
                  (Done files, script'', trace'') \<Rightarrow>
                    (Done (JObj [(''ref'', get_or kv ''ref'' (JStr [])),
                                 (''title'', py_or (get_or kv ''titleNullable'' JNull) (get_or kv ''title'' (JStr []))),
                                 (''subtitle'', py_or (get_or kv ''subtitleNullable'' JNull) (get_or kv ''subtitle'' (JStr []))),
                                 (''licenseName'', py_or (get_or kv ''licenseNameNullable'' JNull)
                                                     (get_or kv ''licenseName'' (JStr []))),
                                 (''dataset_card'', dataset_card),
                                 (''files'', JArr files)]),
                     script'', trace'')
                | (Raised e, script'', trace'') \<Rightarrow> (Raised e, script'', trace'')
                | (Starved, script'', trace'') \<Rightarrow> (Starved, script'', trace''))
           | (Raised e, script', trace') \<Rightarrow> (Raised e, script', trace')
           | (Starved, script', trace') \<Rightarrow> (Starved, script', trace'))
      | _ \<Rightarrow> (Raised AttributeError, script, trace))"

text \<open>
  The worker pool of \<^verbatim>\<open>process_kaggle_datasets_file\<close>. Every dataset is a task of its
  own, and a task sends its requests one after the other: \<open>scripts i\<close> are the replies to
  the requests of task \<open>i\<close>. \<^verbatim>\<open>as_completed\<close> hands the tasks over in the order in which
  they finish: \<open>finish i\<close> is when task \<open>i\<close> finishes, and tasks that finish together come
  in the order submitted. The result of a task is appended; a task that raised is
  reported and leaves nothing; a task that does not return keeps the loop waiting.
\<close>

definition as_completed :: "(nat \<Rightarrow> nat) \<Rightarrow> nat \<Rightarrow> nat list" where
  "as_completed finish n = sort_key finish [0..<n]"

definition collected :: "json outcome list \<Rightarrow> json list" where
  "collected results = concat (map (\<lambda>res. case res of Done r \<Rightarrow> [r] | _ \<Rightarrow> []) results)"

definition process_kaggle_datasets_file ::
  "platform \<Rightarrow> string \<Rightarrow> string \<Rightarrow> (nat \<Rightarrow> reply list) \<Rightarrow> (nat \<Rightarrow> nat) \<Rightarrow> files \<Rightarrow> files outcome" where
  "process_kaggle_datasets_file plat input_filename output_filename scripts finish fs =
     (case fs input_filename of
        None \<Rightarrow> Done fs
      | Some document \<Rightarrow>
          (case py_iter document of
             Inl e \<Rightarrow> Raised e
           | Inr datasets \<Rightarrow>
               (let futures = map (\<lambda>i. fst (process_kaggle_dataset plat (datasets ! i) (scripts i) []))
                                [0..<length datasets]
                in if Starved \<in> set futures then Starved
                   else Done (fs(output_filename \<mapsto>
                          JArr (collected (map ((!) futures) (as_completed finish (length datasets)))))))))"

definition clean_kaggle_data :: "platform \<Rightarrow> string \<Rightarrow> (nat \<Rightarrow> reply list) \<Rightarrow> (nat \<Rightarrow> nat) \<Rightarrow> files \<Rightarrow> files outcome" where
  "clean_kaggle_data plat KEYWORD scripts finish fs =
     process_kaggle_datasets_file plat (kaggle_datasets_file KEYWORD) (processed_kaggle_file KEYWORD)
       scripts finish fs"

section \<open>Vocabulary of the properties about the compliance merge\<close>

text \<open>\<^verbatim>\<open>record.get(k)\<close> of a record that is a dict.\<close>

definition lookup :: "json \<Rightarrow> string \<Rightarrow> json option" where
  "lookup r k = (case r of JObj kv \<Rightarrow> map_of kv k | _ \<Rightarrow> None)"



text \<open>
  The verdict is missing, is the empty object, or has no \<^verbatim>\<open>is_downstream\<close> key.
\<close>

definition verdict_absent :: "json \<Rightarrow> bool" where
  "verdict_absent r =
     (case r of
        JObj kv \<Rightarrow>
          (case map_of kv ''downstream_usage'' of
             None \<Rightarrow> True
           | Some (JObj u) \<Rightarrow> map_of u ''is_downstream'' = None
           | _ \<Rightarrow> False)
      | _ \<Rightarrow> False)"


text \<open>Sample data of the closed examples.\<close>

definition no_violation :: violation_check where
  "no_violation dataset_record original_info =
     [(''has_violation'', JBool False), (''violations'', JArr [])]"

definition verdict :: "bool \<Rightarrow> json" where
  "verdict b = JObj [(''is_downstream'', JBool b), (''reason'', JStr ''stated by the capability'')]"

definition sample_repo :: "string \<Rightarrow> json \<Rightarrow> json" where
  "sample_repo name usage = JObj [(''name'', JStr name), (''downstream_usage'', usage)]"


definition sample_profile :: "(string \<times> json) list" where
  "sample_profile = [(''title'', JStr ''BRSET''), (''citation'', JStr ''Nakayama 2023'')]"

definition uncited_repo :: json where
  "uncited_repo = sample_repo ''fork'' (verdict True)"

definition cited_repo :: json where
  "cited_repo = JObj [(''name'', JStr ''paper-code''), (''citation'', JStr ''Own 2024''),
                      (''downstream_usage'', verdict True)]"



section \<open>Vocabulary of the properties about the remote services\<close>

text \<open>
  A status that is neither a success nor one of the retryable classes: not 2xx, not 429,
  not 503, not the 403 of the rate limit.
\<close>

definition fatal :: "response \<Rightarrow> bool" where
  "fatal r =
     (\<not> (200 \<le> status_code r \<and> status_code r < 300) \<and> status_code r \<noteq> 429
      \<and> status_code r \<noteq> 503 \<and> \<not> rate_limited r)"

text \<open>A 429 whose \<^verbatim>\<open>Retry-After\<close> header, or the default 5 in its absence, reads \<open>hint\<close>.\<close>

definition throttled :: "response \<Rightarrow> int \<Rightarrow> bool" where
  "throttled r hint = (status_code r = 429 \<and> header_int (headers r) ''Retry-After'' 5 = Some hint)"

text \<open>
  The sleeps of the specification for successive hints from attempt \<open>attempt\<close> on: the
  hint times two to the attempt, capped at 60 for the hub, raised to 5 at least for the
  competition catalog.
\<close>

fun hub_waits :: "nat \<Rightarrow> int list \<Rightarrow> int list" where
  "hub_waits attempt [] = []"
| "hub_waits attempt (hint # hints) = min (hint * 2 ^ attempt) 60 # hub_waits (Suc attempt) hints"

fun kaggle_waits :: "nat \<Rightarrow> int list \<Rightarrow> int list" where
  "kaggle_waits attempt [] = []"
| "kaggle_waits attempt (hint # hints) = max (hint * 2 ^ attempt) 5 # kaggle_waits (Suc attempt) hints"

text \<open>The events of a run of retries: each request, then the sleep after its reply.\<close>

definition retries :: "request \<Rightarrow> int list \<Rightarrow> event list" where
  "retries q waits = concat (map (\<lambda>w. [Get q, Sleep w]) waits)"

text \<open>
  Sleeps that take place on the platform: each is of at most 9223372036 seconds, and one
  of more than a minute is carried out by the operating system, whenever it is asked.
\<close>

definition carried_out :: "platform \<Rightarrow> int list \<Rightarrow> bool" where
  "carried_out plat waits =
     (\<forall>w\<in>set waits. w \<le> sleep_max \<and> (60 < w \<longrightarrow> (\<forall>trace. os_sleeps plat trace (w * 1000000000))))"

text \<open>
  The sub-intervals of the specification: consecutive windows of \<open>interval_days\<close> days
  from the start, the last one cut at the end.
\<close>

function windows :: "int \<Rightarrow> int \<Rightarrow> int \<Rightarrow> (int \<times> int) list" where
  "windows current end_date interval_days =
     (if current < end_date \<and> 0 < interval_days
      then (current, min (current + interval_days * usec_per_day) end_date)
             # windows (min (current + interval_days * usec_per_day) end_date) end_date interval_days
      else [])"
  by pat_completeness auto
termination
  by (relation "measure (\<lambda>(current, end_date, interval_days). nat (end_date - current))")
    (auto simp: usec_per_day_def)

text \<open>
  One search per window, in the order of the list, the results concatenated; the first
  search that does not return ends the sweep.
\<close>

fun sweep :: "platform \<Rightarrow> string \<Rightarrow> (int \<times> int) list \<Rightarrow> reply list \<Rightarrow> event list \<Rightarrow> json list run" where
  "sweep plat keyword [] script trace = (Done [], script, trace)"
| "sweep plat keyword (w # ws) script trace =
     (case search_repositories_with_date_range plat keyword (day_of (fst w)) (day_of (snd w)) 100 10 script trace of
        (Done repos, script', trace') \<Rightarrow>
          (case sweep plat keyword ws script' trace' of
             (Done later, script'', trace'') \<Rightarrow> (Done (repos @ later), script'', trace'')
           | (Raised e, script'', trace'') \<Rightarrow> (Raised e, script'', trace'')
           | (Starved, script'', trace'') \<Rightarrow> (Starved, script'', trace''))
      | (Raised e, script', trace') \<Rightarrow> (Raised e, script', trace')
      | (Starved, script', trace') \<Rightarrow> (Starved, script', trace'))"

text \<open>Sample replies and dates of the closed examples.\<close>

definition steady :: platform where
  "steady = \<lparr>time_ns = (\<lambda>trace. 1735689600000000000), os_sleeps = (\<lambda>trace ns. True),
             recursion_room = 900\<rparr>"

definition plain_response :: "int \<Rightarrow> string \<Rightarrow> response" where
  "plain_response status body = \<lparr>status_code = status, headers = [], resp_text = body, resp_json = None\<rparr>"

definition too_many_requests :: "string \<Rightarrow> response" where
  "too_many_requests retry_after =
     \<lparr>status_code = 429, headers = [(''Retry-After'', retry_after)], resp_text = ''slow down'',
      resp_json = None\<rparr>"

definition listing :: "json \<Rightarrow> response" where
  "listing doc = \<lparr>status_code = 200, headers = [], resp_text = [], resp_json = Some doc\<rparr>"

definition feb_15_2025 :: int where
  "feb_15_2025 = 739296 * usec_per_day"

definition repo_named :: "string \<Rightarrow> json" where
  "repo_named full_name = JObj [(''full_name'', JStr full_name)]"

definition page_of :: "json list \<Rightarrow> reply" where
  "page_of items = Response (listing (JObj [(''total_count'', JInt (int (length items))), (''items'', JArr items)]))"

definition two_windows_script :: "reply list" where
  "two_windows_script =
     [page_of [repo_named ''a/one'', repo_named ''b/two''], page_of [],
      page_of [repo_named ''c/three''], page_of []]"

section \<open>Vocabulary of the properties about enrichment\<close>

text \<open>
  A raw repository record whose metadata can be read: a dict whose \<^verbatim>\<open>license\<close> is falsy or
  a dict.
\<close>

definition readable_repo :: "json \<Rightarrow> bool" where
  "readable_repo repo =
     (case repo of
        JObj kv \<Rightarrow>
          (if truthy (get_or kv ''license'' JNull)
           then (case get_or kv ''license'' JNull of JObj l \<Rightarrow> True | _ \<Rightarrow> False)
           else True)
      | _ \<Rightarrow> False)"

text \<open>
  A reply to the readme request that fails the fetch for good: the quota headers read as
  numbers, quota is left, and the status is neither 200 nor one that is retried.
\<close>

definition readme_refused :: "response \<Rightarrow> bool" where
  "readme_refused r =
     ((case header_int (headers r) ''X-RateLimit-Remaining'' 1 of None \<Rightarrow> False | Some n \<Rightarrow> n \<noteq> 0)
      \<and> (case header_get (headers r) ''X-RateLimit-Reset'' of None \<Rightarrow> True | Some v \<Rightarrow> py_int v \<noteq> None)
      \<and> status_code r \<noteq> 200 \<and> status_code r \<noteq> 403 \<and> status_code r \<noteq> 429)"

text \<open>The result of task \<open>i\<close> of the worker pool, and whether a result is a record.\<close>

definition kaggle_task :: "platform \<Rightarrow> json list \<Rightarrow> (nat \<Rightarrow> reply list) \<Rightarrow> nat \<Rightarrow> json outcome" where
  "kaggle_task plat datasets scripts i = fst (process_kaggle_dataset plat (datasets ! i) (scripts i) [])"

definition is_done :: "'a outcome \<Rightarrow> bool" where
  "is_done res = (case res of Done r \<Rightarrow> True | _ \<Rightarrow> False)"

text \<open>A reply to the view request of the competition catalog that is not retried and not a success.\<close>

definition view_refused :: "reply \<Rightarrow> bool" where
  "view_refused rp =
     (case rp of
        Response r \<Rightarrow> status_code r \<noteq> 200 \<and> status_code r \<noteq> 429 \<and> status_code r \<noteq> 503
      | _ \<Rightarrow> False)"

text \<open>Sample data of the closed examples.\<close>

definition raw_repo :: "string \<Rightarrow> json" where
  "raw_repo full_name =
     JObj [(''name'', JStr full_name), (''full_name'', JStr full_name), (''license'', JNull),
           (''topics'', JArr [])]"

definition raw_kaggle :: "string \<Rightarrow> json" where
  "raw_kaggle ref = JObj [(''ref'', JStr ref), (''title'', JStr ''BRSET images'')]"

definition view_without_names :: response where
  "view_without_names =
     listing (JObj [(''description'', JStr ''retinal images''),
                    (''datasetFiles'', JArr [JObj [(''fileName'', JStr ''labels.csv'')]])])"


text \<open>
  A raw hub record whose tags can be read: a dict whose \<^verbatim>\<open>tags\<close>, where it has them, are a
  list of texts. A reply to a hub request that fails the fetch for good: a status that is
  neither 200 nor one that is retried.
\<close>

definition readable_dataset :: "json \<Rightarrow> bool" where
  "readable_dataset entry =
     (case entry of
        JObj kv \<Rightarrow>
          (case get_or kv ''tags'' (JArr []) of
             JArr tags \<Rightarrow> list_all (\<lambda>t. case t of JStr s \<Rightarrow> True | _ \<Rightarrow> False) tags
           | _ \<Rightarrow> False)
      | _ \<Rightarrow> False)"

definition hub_refused :: "response \<Rightarrow> bool" where
  "hub_refused r =
     (status_code r \<noteq> 200 \<and> status_code r \<noteq> 429 \<and> status_code r \<noteq> 500 \<and> status_code r \<noteq> 503)"

text \<open>The two replies of a record whose card and whose file listing are both refused.\<close>

definition both :: "response \<times> response \<Rightarrow> reply list" where
  "both p = [Response (fst p), Response (snd p)]"









section \<open>Properties\<close>

subsection \<open>The loop of the compliance merge\<close>

lemma analyze_loop_append:
  "analyze_loop upd info acc (xs @ ys) =
     (case analyze_loop upd info acc xs of Inl e \<Rightarrow> Inl e | Inr acc' \<Rightarrow> analyze_loop upd info acc' ys)"
  by (induction xs arbitrary: acc) (simp_all split: sum.splits bool.splits)

lemma analyze_loop_skip:
  "is_downstream r = Inr False \<Longrightarrow> analyze_loop upd info acc (xs @ r # ys) = analyze_loop upd info acc (xs @ ys)"
  by (simp add: analyze_loop_append split: sum.splits)



lemma verdict_absent_not_downstream:
  assumes "verdict_absent r"
  shows "is_downstream r = Inr False"
proof (cases r)
  case (JObj kv)
  show ?thesis
  proof (cases "map_of kv ''downstream_usage''")
    case None
    with JObj show ?thesis by (simp add: is_downstream_def)
  next
    case (Some u)
    with JObj assms obtain ukv where "u = JObj ukv" "map_of ukv ''is_downstream'' = None"
      by (cases u) (simp_all add: verdict_absent_def)
    with JObj Some show ?thesis by (simp add: is_downstream_def)
  qed
qed (use assms in \<open>simp_all add: verdict_absent_def\<close>)


lemma analyze_loop_members:
  "analyze_loop upd info acc rs = Inr out \<Longrightarrow> r' \<in> set out \<Longrightarrow>
     r' \<in> set acc \<or> (\<exists>r\<in>set rs. is_downstream r = Inr True \<and> upd r info = Inr r')"
proof (induction rs arbitrary: acc)
  case Nil
  then show ?case by simp
next
  case (Cons r rs)
  from Cons.prems(1) show ?case
  proof (cases "is_downstream r")
    case (Inl e)
    with Cons.prems show ?thesis by simp
  next
    case (Inr b)
    show ?thesis
    proof (cases b)
      case False
      with Inr Cons.prems have "analyze_loop upd info acc rs = Inr out" by simp
      from Cons.IH [OF this Cons.prems(2)] show ?thesis by auto
    next
      case True
      show ?thesis
      proof (cases "upd r info")
        case (Inl e)
        with True Inr Cons.prems show ?thesis by simp
      next
        case (Inr u)
        with True \<open>is_downstream r = Inr b\<close> Cons.prems
        have "analyze_loop upd info (acc @ [u]) rs = Inr out" by simp
        from Cons.IH [OF this Cons.prems(2)] Inr True \<open>is_downstream r = Inr b\<close>
        show ?thesis by auto
      qed
    qed
  qed
qed

subsection \<open>What the merge writes\<close>

lemma map_of_dict_set: "map_of (dict_set kv k v) = (map_of kv)(k \<mapsto> v)"
  by (simp add: dict_set_def update_conv')

lemma map_of_violation_fields_other:
  "k \<noteq> ''has_violation'' \<Longrightarrow> k \<noteq> ''violations'' \<Longrightarrow> map_of (violation_fields vi kv) k = map_of kv k"
  by (simp add: violation_fields_def map_of_dict_set)





lemma update_github_citation:
  assumes "update_record_github chk r info = Inr r'"
  shows "if truthy (case lookup r ''citation'' of None \<Rightarrow> JNull | Some c \<Rightarrow> c)
         then lookup r' ''citation'' = lookup r ''citation''
         else dict_get info ''citation'' (JStr []) = Inr (case lookup r' ''citation'' of None \<Rightarrow> JNull | Some c \<Rightarrow> c)
              \<and> lookup r' ''citation'' \<noteq> None"
proof (cases r)
  case (JObj kv)
  with assms show ?thesis
    by (auto simp: Let_def lookup_def map_of_dict_set map_of_violation_fields_other
        split: if_splits sum.splits)
qed (use assms in simp_all)

subsection \<open>C3: downstream filtering\<close>










subsection \<open>C7: citation merge\<close>

text \<open>
  Claim C7, as amended. Every record of the output of the code-host compliance merge is
  the update of an input record that passed the guard; where that input record had no
  citation or a falsy one (null, the empty text, an empty list or object, 0, false), the
  output record's citation is the license profile's \<^verbatim>\<open>citation\<close> (the empty text when the
  profile has none); where it had one, the citation is unchanged.
\<close>

theorem citation_merge_github:
  assumes "analyze_downstream_usage_github chk records original_info = Inr out"
    and "r' \<in> set out"
  shows "\<exists>r\<in>set records. is_downstream r = Inr True
           \<and> update_record_github chk r original_info = Inr r'
           \<and> (if truthy (case lookup r ''citation'' of None \<Rightarrow> JNull | Some c \<Rightarrow> c)
              then lookup r' ''citation'' = lookup r ''citation''
              else lookup r' ''citation'' \<noteq> None
                 \<and> dict_get original_info ''citation'' (JStr []) =
                     Inr (case lookup r' ''citation'' of None \<Rightarrow> JNull | Some c \<Rightarrow> c))"
proof -
  from assms analyze_loop_members [of "update_record_github chk" original_info "[]" records out r']
  obtain r where r: "r \<in> set records" "is_downstream r = Inr True"
    "update_record_github chk r original_info = Inr r'"
    by (auto simp: analyze_downstream_usage_github_def)
  from update_github_citation [OF r(3)] r show ?thesis
    by (auto split: if_splits)
qed

lemma sample_run:
  "analyze_downstream_usage_github no_violation [uncited_repo, cited_repo] (JObj sample_profile) =
     Inr [JObj [(''name'', JStr ''fork''), (''downstream_usage'', verdict True),
                (''has_violation'', JBool False), (''violations'', JArr []),
                (''citation'', JStr ''Nakayama 2023'')],
          JObj [(''name'', JStr ''paper-code''), (''citation'', JStr ''Own 2024''),
                (''downstream_usage'', verdict True),
                (''has_violation'', JBool False), (''violations'', JArr [])]]"
  by (simp add: analyze_downstream_usage_github_def uncited_repo_def cited_repo_def sample_repo_def
      verdict_def is_downstream_def no_violation_def violation_fields_def dict_set_def
      sample_profile_def Let_def)

theorem citation_merge_github_witness:
  "analyze_downstream_usage_github no_violation [uncited_repo, cited_repo] (JObj sample_profile) =
     Inr [JObj [(''name'', JStr ''fork''), (''downstream_usage'', verdict True),
                (''has_violation'', JBool False), (''violations'', JArr []),
                (''citation'', JStr ''Nakayama 2023'')],
          JObj [(''name'', JStr ''paper-code''), (''citation'', JStr ''Own 2024''),
                (''downstream_usage'', verdict True),
                (''has_violation'', JBool False), (''violations'', JArr [])]]
   \<and> (\<exists>r\<in>set [uncited_repo, cited_repo].
         lookup r ''citation'' = None
         \<and> dict_get (JObj sample_profile) ''citation'' (JStr []) = Inr (JStr ''Nakayama 2023''))"
proof -
  let ?r' = "JObj [(''name'', JStr ''fork''), (''downstream_usage'', verdict True),
                (''has_violation'', JBool False), (''violations'', JArr []),
                (''citation'', JStr ''Nakayama 2023'')]"
  from citation_merge_github [OF sample_run, of ?r']
  obtain r where "r \<in> set [uncited_repo, cited_repo]"
    "update_record_github no_violation r (JObj sample_profile) = Inr ?r'"
    by auto
  then have "lookup uncited_repo ''citation'' = None
     \<and> dict_get (JObj sample_profile) ''citation'' (JStr []) = Inr (JStr ''Nakayama 2023'')"
    by (simp add: uncited_repo_def sample_repo_def lookup_def sample_profile_def)
  with sample_run show ?thesis by simp
qed

text \<open>
  The hub compliance merge writes no citation: a downstream record without one leaves
  without one, whatever the license profile holds.
\<close>

theorem citation_merge_huggingface_counterexample:
  "analyze_downstream_usage_huggingface no_violation [uncited_repo] (JObj sample_profile) =
     Inr [JObj [(''name'', JStr ''fork''), (''downstream_usage'', verdict True),
                (''has_violation'', JBool False), (''violations'', JArr [])]]
   \<and> lookup uncited_repo ''citation'' = None
   \<and> lookup (JObj sample_profile) ''citation'' = Some (JStr ''Nakayama 2023'')"
  by (simp add: analyze_downstream_usage_huggingface_def uncited_repo_def sample_repo_def
      verdict_def is_downstream_def no_violation_def violation_fields_def dict_set_def
      sample_profile_def lookup_def)

subsection \<open>C10: a record without a verdict\<close>

text \<open>
  Claim C10. A classified record whose \<^verbatim>\<open>downstream_usage\<close> is missing, is the empty
  object, or has no \<^verbatim>\<open>is_downstream\<close> key is not downstream: the guard evaluates to false
  without raising, and the merge of a list that holds the record, at any position, is the
  merge of the list without it.
\<close>

theorem absent_verdict_not_downstream:
  assumes "verdict_absent r"
  shows "is_downstream r = Inr False
       \<and> analyze_downstream_usage_github chk (xs @ r # ys) original_info =
           analyze_downstream_usage_github chk (xs @ ys) original_info
       \<and> analyze_downstream_usage_huggingface chk (xs @ r # ys) original_info =
           analyze_downstream_usage_huggingface chk (xs @ ys) original_info"
  using verdict_absent_not_downstream [OF assms]
  by (simp add: analyze_downstream_usage_github_def analyze_downstream_usage_huggingface_def
      analyze_loop_skip)

theorem absent_verdict_not_downstream_witness:
  "verdict_absent (sample_repo ''e'' (JObj []))
   \<and> analyze_downstream_usage_github no_violation
        ([uncited_repo] @ sample_repo ''e'' (JObj []) # [cited_repo]) (JObj sample_profile) =
      analyze_downstream_usage_github no_violation ([uncited_repo] @ [cited_repo]) (JObj sample_profile)"
proof -
  have h: "verdict_absent (sample_repo ''e'' (JObj []))"
    by (simp add: verdict_absent_def sample_repo_def)
  from absent_verdict_not_downstream [OF h] h show ?thesis by blast
qed

subsection \<open>C4: a missing input artifact\<close>

text \<open>
  The enrichment and the classification stages catch the failure to load their input:
  with no input artifact they return without raising and leave the files as they are.
\<close>

lemma missing_input_handled:
  "fs (github_repos_file KEYWORD) = None \<Longrightarrow>
     clean_github_data plat KEYWORD fs script trace = (Done fs, script, trace)"
  "fs (huggingface_datasets_file KEYWORD) = None \<Longrightarrow>
     clean_huggingface_data plat KEYWORD fs script trace = (Done fs, script, trace)"
  "fs (kaggle_datasets_file KEYWORD) = None \<Longrightarrow> clean_kaggle_data plat KEYWORD scripts finish fs = Done fs"
  "fs (processed_github_repos_file KEYWORD) = None \<Longrightarrow>
     fine_filter_github llm loads KEYWORD dataset_info fs = Inr fs"
  "fs (processed_huggingface_datasets_file KEYWORD) = None \<Longrightarrow>
     fine_filter_huggingface llm loads KEYWORD dataset_info fs = Inr fs"
  "fs (processed_kaggle_file KEYWORD) = None \<Longrightarrow>
     fine_filter_kaggle llm loads KEYWORD dataset_info fs = Inr fs"
  by (simp_all add: clean_github_data_def clean_huggingface_data_def clean_kaggle_data_def
      process_kaggle_datasets_file_def fine_filter_github_def process_repos_file_def
      fine_filter_huggingface_def process_datasets_file_def fine_filter_kaggle_def
      process_kaggle_datasets_file_filter_def)

text \<open>
  Claim C4 at the compliance stage, which opens its files with no handler: the license
  profile is there, the classified artifact is not, and \<^verbatim>\<open>check_github\<close> and
  \<^verbatim>\<open>check_huggingface\<close> raise \<^verbatim>\<open>FileNotFoundError\<close>.
\<close>

theorem check_github_missing_artifact:
  "check_github no_violation ''BRSET'' [license_profile_file ''BRSET'' \<mapsto> JObj sample_profile]
     = Inl FileNotFoundError
   \<and> check_huggingface no_violation ''BRSET'' [license_profile_file ''BRSET'' \<mapsto> JObj sample_profile]
     = Inl FileNotFoundError"
  by (simp add: check_github_def check_huggingface_def license_profile_file_def
      final_processed_repos_file_def final_processed_huggingface_file_def)

subsection \<open>The pattern of the fenced block\<close>

lemma is_space_fence [simp]: "\<not> is_space (CHR 0x60)"
  by (simp add: is_space_def)

lemma skip_ws_spaces: "\<forall>c\<in>set ws. is_space c \<Longrightarrow> skip_ws (ws @ s) = skip_ws s"
  by (induction ws) (simp_all add: skip_ws_def)

lemma skip_ws_fence: "skip_ws (fence @ s) = fence @ s"
  by (simp add: skip_ws_def fence_def)

lemma skip_ws_split: "\<exists>ws. s = ws @ skip_ws s \<and> (\<forall>c\<in>set ws. is_space c)"
proof
  show "s = takeWhile is_space s @ skip_ws s \<and> (\<forall>c\<in>set (takeWhile is_space s). is_space c)"
    by (auto simp: skip_ws_def dest: set_takeWhileD)
qed

lemma starts_with_append: "starts_with p (p @ s)"
  by (simp add: starts_with_def)

lemma starts_withD: "starts_with p s \<Longrightarrow> s = p @ drop (length p) s"
  by (metis append_take_drop_id starts_with_def)

lemma closing_sound:
  "closing s = Some g \<Longrightarrow>
     \<exists>body ws post. g = body @ ''}'' \<and> s = g @ ws @ fence @ post \<and> (\<forall>c\<in>set ws. is_space c)"
proof (induction s arbitrary: g)
  case Nil
  then show ?case by simp
next
  case (Cons c cs)
  show ?case
  proof (cases "c = CHR ''}'' \<and> starts_with fence (skip_ws cs)")
    case True
    with Cons.prems have g: "g = [c]" by simp
    from skip_ws_split obtain ws where ws: "cs = ws @ skip_ws cs" "\<forall>c\<in>set ws. is_space c"
      by blast
    from True starts_withD have "skip_ws cs = fence @ drop (length fence) (skip_ws cs)"
      by blast
    with ws have "cs = ws @ fence @ drop (length fence) (skip_ws cs)" by simp
    with g True ws(2) show ?thesis
      by (intro exI [of _ "[]"] exI [of _ ws] exI [of _ "drop (length fence) (skip_ws cs)"]) simp
  next
    case False
    with Cons.prems obtain g' where g': "closing cs = Some g'" "g = c # g'"
      by auto
    from Cons.IH [OF g'(1)] obtain body ws post where
      "g' = body @ ''}''" "cs = g' @ ws @ fence @ post" "\<forall>c\<in>set ws. is_space c"
      by blast
    with g'(2) show ?thesis
      by (intro exI [of _ "c # body"] exI [of _ ws] exI [of _ post]) simp
  qed
qed

lemma closing_complete:
  "\<forall>c\<in>set ws. is_space c \<Longrightarrow> closing (body @ ''}'' @ ws @ fence @ post) \<noteq> None"
proof (induction body)
  case Nil
  then show ?case
    by (simp add: skip_ws_spaces skip_ws_fence starts_with_append)
next
  case (Cons b body)
  then show ?case by simp
qed

lemma match_here_sound:
  assumes "match_here s = Some g"
  shows "\<exists>ws1 body ws2 post. g = ''{'' @ body @ ''}'' \<and> s = ws1 @ g @ ws2 @ fence @ post
           \<and> (\<forall>c\<in>set ws1. is_space c) \<and> (\<forall>c\<in>set ws2. is_space c)"
proof -
  from skip_ws_split obtain ws1 where ws1: "s = ws1 @ skip_ws s" "\<forall>c\<in>set ws1. is_space c"
    by blast
  from assms obtain cs g' where s: "skip_ws s = CHR ''{'' # cs" "closing cs = Some g'" "g = CHR ''{'' # g'"
    by (auto simp: match_here_def split: list.splits if_splits)
  from closing_sound [OF s(2)] obtain body ws2 post where
    "g' = body @ ''}''" "cs = g' @ ws2 @ fence @ post" "\<forall>c\<in>set ws2. is_space c"
    by blast
  with s ws1 show ?thesis
    by (intro exI [of _ ws1] exI [of _ body] exI [of _ ws2] exI [of _ post]) simp
qed

lemma match_here_complete:
  assumes "\<forall>c\<in>set ws1. is_space c" and "\<forall>c\<in>set ws2. is_space c"
  shows "match_here (ws1 @ ''{'' @ body @ ''}'' @ ws2 @ fence @ post) \<noteq> None"
proof -
  have "\<not> is_space (CHR ''{'')" by (simp add: is_space_def)
  then have "skip_ws (''{'' @ body @ ''}'' @ ws2 @ fence @ post) = ''{'' @ body @ ''}'' @ ws2 @ fence @ post"
    by (simp add: skip_ws_def)
  with assms(1) have "skip_ws (ws1 @ ''{'' @ body @ ''}'' @ ws2 @ fence @ post)
      = CHR ''{'' # body @ ''}'' @ ws2 @ fence @ post"
    by (simp add: skip_ws_spaces)
  with closing_complete [OF assms(2), of body post] show ?thesis
    by (simp add: match_here_def)
qed

lemma re_search_sound:
  "re_search t = Some g \<Longrightarrow>
     \<exists>pre ws1 body ws2 post. g = ''{'' @ body @ ''}''
        \<and> t = pre @ fence_json @ ws1 @ g @ ws2 @ fence @ post
        \<and> (\<forall>c\<in>set ws1. is_space c) \<and> (\<forall>c\<in>set ws2. is_space c)"
proof (induction t)
  case Nil
  then show ?case by simp
next
  case (Cons c cs)
  show ?case
  proof (cases "starts_with fence_json (c # cs) \<and> match_here (drop (length fence_json) (c # cs)) \<noteq> None")
    case True
    with Cons.prems have m: "match_here (drop (length fence_json) (c # cs)) = Some g"
      by auto
    from match_here_sound [OF m] obtain ws1 body ws2 post where
      b: "g = ''{'' @ body @ ''}''" "drop (length fence_json) (c # cs) = ws1 @ g @ ws2 @ fence @ post"
      "\<forall>c\<in>set ws1. is_space c" "\<forall>c\<in>set ws2. is_space c"
      by blast
    from True starts_withD have "c # cs = fence_json @ drop (length fence_json) (c # cs)"
      by blast
    with b(2) have "c # cs = [] @ fence_json @ ws1 @ g @ ws2 @ fence @ post" by simp
    with b(1,3,4) show ?thesis by blast
  next
    case False
    with Cons.prems have "re_search cs = Some g"
      by (auto split: if_splits option.splits)
    from Cons.IH [OF this] obtain pre ws1 body ws2 post where
      "g = ''{'' @ body @ ''}''" "cs = pre @ fence_json @ ws1 @ g @ ws2 @ fence @ post"
      "\<forall>c\<in>set ws1. is_space c" "\<forall>c\<in>set ws2. is_space c"
      by blast
    then show ?thesis
      by (intro exI [of _ "c # pre"] exI [of _ ws1] exI [of _ body] exI [of _ ws2] exI [of _ post]) simp
  qed
qed

lemma re_search_complete:
  assumes "\<forall>c\<in>set ws1. is_space c" and "\<forall>c\<in>set ws2. is_space c"
  shows "re_search (pre @ fence_json @ ws1 @ ''{'' @ body @ ''}'' @ ws2 @ fence @ post) \<noteq> None"
proof (induction pre)
  case Nil
  have "fence_json @ ws1 @ ''{'' @ body @ ''}'' @ ws2 @ fence @ post \<noteq> []"
    by (simp add: fence_json_def fence_def)
  then obtain c cs where cs: "fence_json @ ws1 @ ''{'' @ body @ ''}'' @ ws2 @ fence @ post = c # cs"
    by (cases "fence_json @ ws1 @ ''{'' @ body @ ''}'' @ ws2 @ fence @ post") auto
  have "starts_with fence_json (c # cs)"
    by (metis cs starts_with_append)
  moreover have "match_here (drop (length fence_json) (c # cs)) \<noteq> None"
    using match_here_complete [OF assms, of body post] by (simp add: cs [symmetric])
  ultimately have "re_search (c # cs) \<noteq> None" by auto
  with cs show ?case by simp
next
  case (Cons p pre)
  then show ?case by (auto split: option.splits)
qed

subsection \<open>C2: parsing the capability's answer\<close>

text \<open>
  Claim C2, as amended. For every answer text and whatever \<^verbatim>\<open>json.loads\<close> does: when the
  pattern finds a fenced \<^verbatim>\<open>```json\<close> block holding \<^verbatim>\<open>{...}\<close> and its content parses,
  that document is returned; when the pattern finds none and the whole text parses, that
  document is returned; in every other case the empty dict is returned. The function
  returns on every text. The pattern finds a block only where the text holds one (the
  fence, white space, a brace-delimited text, white space, a fence), and finds one
  wherever the text holds one. \<^verbatim>\<open>check_downstream_usage\<close>, where it returns, returns the
  default verdict \<^verbatim>\<open>is_downstream = False\<close> with the error in \<^verbatim>\<open>reason\<close> when the call to
  the capability raised, and the parser's result otherwise.
\<close>

theorem safe_default_parsing:
  "(re_search t = Some g \<and> loads g = Some v \<longrightarrow> extract_json_from_text loads t = v)
   \<and> (re_search t = None \<and> loads t = Some v \<longrightarrow> extract_json_from_text loads t = v)
   \<and> ((re_search t = Some g \<and> loads g = None) \<or> (re_search t = None \<and> loads t = None)
        \<longrightarrow> extract_json_from_text loads t = JObj [])
   \<and> (re_search t = Some g \<longrightarrow>
        (\<exists>pre ws1 body ws2 post. g = ''{'' @ body @ ''}''
           \<and> t = pre @ fence_json @ ws1 @ g @ ws2 @ fence @ post
           \<and> (\<forall>c\<in>set ws1. is_space c) \<and> (\<forall>c\<in>set ws2. is_space c)))
   \<and> ((\<forall>c\<in>set ws1. is_space c) \<and> (\<forall>c\<in>set ws2. is_space c) \<longrightarrow>
        re_search (pre @ fence_json @ ws1 @ ''{'' @ body @ ''}'' @ ws2 @ fence @ post) \<noteq> None)
   \<and> (check_downstream_usage llm loads repo_info dataset_info = Inr res \<longrightarrow>
        res = (case llm repo_info dataset_info of
                 Inl msg \<Rightarrow> default_verdict msg
               | Inr content \<Rightarrow> extract_json_from_text loads (py_strip content)))"
proof -
  have a: "re_search t = Some g \<and> loads g = Some v \<longrightarrow> extract_json_from_text loads t = v"
    by (simp add: extract_json_from_text_def)
  have b: "re_search t = None \<and> loads t = Some v \<longrightarrow> extract_json_from_text loads t = v"
    by (simp add: extract_json_from_text_def)
  have c: "(re_search t = Some g \<and> loads g = None) \<or> (re_search t = None \<and> loads t = None)
        \<longrightarrow> extract_json_from_text loads t = JObj []"
    by (auto simp: extract_json_from_text_def)
  have d: "re_search t = Some g \<longrightarrow>
        (\<exists>pre ws1 body ws2 post. g = ''{'' @ body @ ''}''
           \<and> t = pre @ fence_json @ ws1 @ g @ ws2 @ fence @ post
           \<and> (\<forall>c\<in>set ws1. is_space c) \<and> (\<forall>c\<in>set ws2. is_space c))"
    using re_search_sound by blast
  have e: "(\<forall>c\<in>set ws1. is_space c) \<and> (\<forall>c\<in>set ws2. is_space c) \<longrightarrow>
        re_search (pre @ fence_json @ ws1 @ ''{'' @ body @ ''}'' @ ws2 @ fence @ post) \<noteq> None"
    using re_search_complete by blast
  have f: "check_downstream_usage llm loads repo_info dataset_info = Inr res \<longrightarrow>
        res = (case llm repo_info dataset_info of
                 Inl msg \<Rightarrow> default_verdict msg
               | Inr content \<Rightarrow> extract_json_from_text loads (py_strip content))"
    by (auto simp: check_downstream_usage_def split: sum.splits if_splits)
  from a b c d e f show ?thesis by blast
qed

lemma re_search_fenced_sample: "re_search fenced_sample = Some sample_answer"
  by (simp add: fenced_sample_def fence_json_def fence_def sample_answer_def starts_with_def
      match_here_def skip_ws_def is_space_def)

lemma re_search_prose_sample: "re_search prose_sample = None"
  by (simp add: prose_sample_def fence_json_def fence_def starts_with_def)

lemma re_search_bare_sample: "re_search sample_answer = None"
  by (simp add: sample_answer_def fence_json_def fence_def starts_with_def)

theorem safe_default_parsing_witness:
  "re_search fenced_sample = Some sample_answer
   \<and> sample_loads sample_answer = Some sample_verdict
   \<and> extract_json_from_text sample_loads fenced_sample = sample_verdict
   \<and> re_search sample_answer = None
   \<and> extract_json_from_text sample_loads sample_answer = sample_verdict
   \<and> check_downstream_usage (\<lambda>repo_info dataset_info. Inl ''timeout'') sample_loads
        (sample_repo ''fork'' JNull) (JObj []) = Inr (default_verdict ''timeout'')"
proof -
  have l: "sample_loads sample_answer = Some sample_verdict"
    by (simp add: sample_loads_def)
  from l re_search_fenced_sample
    safe_default_parsing [of fenced_sample sample_answer sample_loads sample_verdict]
  have a: "extract_json_from_text sample_loads fenced_sample = sample_verdict" by blast
  from l re_search_bare_sample
    safe_default_parsing [of sample_answer sample_answer sample_loads sample_verdict]
  have b: "extract_json_from_text sample_loads sample_answer = sample_verdict" by blast
  have c: "check_downstream_usage (\<lambda>repo_info dataset_info. Inl ''timeout'') sample_loads
        (sample_repo ''fork'' JNull) (JObj []) = Inr (default_verdict ''timeout'')"
    by (simp add: check_downstream_usage_def sample_repo_def)
  from re_search_fenced_sample l a re_search_bare_sample b c show ?thesis by (intro conjI)
qed

text \<open>
  An answer in prose: no fenced block, not JSON. The result is the empty dict, with no
  \<^verbatim>\<open>is_downstream\<close> and no \<^verbatim>\<open>reason\<close>, also through \<^verbatim>\<open>check_downstream_usage\<close>.
\<close>

theorem safe_default_parsing_counterexample:
  "re_search prose_sample = None
   \<and> sample_loads prose_sample = None
   \<and> extract_json_from_text sample_loads prose_sample = JObj []
   \<and> lookup (extract_json_from_text sample_loads prose_sample) ''is_downstream'' = None
   \<and> lookup (extract_json_from_text sample_loads prose_sample) ''reason'' = None
   \<and> check_downstream_usage (\<lambda>repo_info dataset_info. Inr prose_sample) sample_loads
        (sample_repo ''fork'' JNull) (JObj []) = Inr (JObj [])"
proof -
  have l: "sample_loads prose_sample = None"
    by (simp add: sample_loads_def prose_sample_def sample_answer_def)
  have s: "py_strip prose_sample = prose_sample"
    by (simp add: py_strip_def skip_ws_def prose_sample_def is_space_def)
  from l re_search_prose_sample have e: "extract_json_from_text sample_loads prose_sample = JObj []"
    by (simp add: extract_json_from_text_def)
  then have "check_downstream_usage (\<lambda>repo_info dataset_info. Inr prose_sample) sample_loads
        (sample_repo ''fork'' JNull) (JObj []) = Inr (JObj [])"
    by (simp add: check_downstream_usage_def sample_repo_def s)
  with l e re_search_prose_sample show ?thesis
    by (simp add: lookup_def)
qed

subsection \<open>C6: a fatal status ends the call\<close>

lemma fatal_not_ok: "fatal r \<Longrightarrow> status_code r \<noteq> 200 \<and> status_code r \<noteq> 429 \<and> status_code r \<noteq> 503 \<and> \<not> rate_limited r"
  by (auto simp: fatal_def)

text \<open>
  Claim C6. On a response whose status is not 2xx and not of a retryable class (429, 503,
  the 403 of the rate limit), wherever in its run the search receives it, the call
  returns at once: that reply is the last it takes from the script, and the error line
  with the status and the body is the last it prints (the hub adds its failure line).
  The code-host search returns the repositories collected so far, the hub search the
  empty list, the competition-catalog search the datasets collected so far.
\<close>

theorem fatal_status_short_circuit:
  assumes "fatal r"
  shows "(page \<le> max_pages \<longrightarrow>
            search_pages plat keyword start_date end_date per_page max_pages page all_repos (Response r # rest) trace =
              (Done all_repos, rest,
               trace @ [Get (Search_repositories keyword start_date end_date per_page page),
                        Print_error (status_code r) (resp_text r)]))
       \<and> (int attempt < max_retries \<longrightarrow>
            hub_attempts plat keyword max_retries attempt (Response r # rest) trace =
              (Done (JArr []), rest,
               trace @ [Get (List_hub_datasets keyword), Print_error (status_code r) (resp_text r), Print_fail]))
       \<and> (\<not> (case limit of None \<Rightarrow> False | Some m \<Rightarrow> m \<noteq> 0 \<and> page > m) \<longrightarrow>
            kaggle_pages plat keyword per_page limit page attempt all_datasets (Response r # rest) trace =
              (Done all_datasets, rest,
               trace @ [Get (List_kaggle_datasets keyword page per_page),
                        Print_error (status_code r) (resp_text r)]))"
  using fatal_not_ok [OF assms] by (simp add: Let_def)

theorem fatal_status_short_circuit_witness:
  "fatal (plain_response 404 ''Not Found'')
   \<and> search_repositories_with_date_range steady ''BRSET'' 739251 739281 100 10
        [Response (plain_response 404 ''Not Found''), Response (listing (JObj []))] [] =
       (Done [], [Response (listing (JObj []))],
        [Get (Search_repositories ''BRSET'' 739251 739281 100 1), Print_error 404 ''Not Found''])
   \<and> search_hub_datasets steady ''BRSET'' 5
        [Response (plain_response 404 ''Not Found''), Response (listing (JArr []))] [] =
       (Done (JArr []), [Response (listing (JArr []))],
        [Get (List_hub_datasets ''BRSET''), Print_error 404 ''Not Found'', Print_fail])
   \<and> search_kaggle_datasets steady ''BRSET'' 100 None
        [Response (plain_response 404 ''Not Found''), Response (listing (JArr []))] [] =
       (Done [], [Response (listing (JArr []))],
        [Get (List_kaggle_datasets ''BRSET'' 1 100), Print_error 404 ''Not Found''])"
proof -
  have f: "fatal (plain_response 404 ''Not Found'')"
    by (simp add: fatal_def plain_response_def rate_limited_def)
  from fatal_status_short_circuit [OF f, where plat = steady and page = 1 and max_pages = 10
      and keyword = "''BRSET''" and start_date = 739251 and end_date = 739281 and per_page = 100
      and all_repos = "[]" and rest = "[Response (listing (JObj []))]" and trace = "[]"]
  have "search_repositories_with_date_range steady ''BRSET'' 739251 739281 100 10
        [Response (plain_response 404 ''Not Found''), Response (listing (JObj []))] [] =
       (Done [], [Response (listing (JObj []))],
        [Get (Search_repositories ''BRSET'' 739251 739281 100 1), Print_error 404 ''Not Found''])"
    by (simp add: search_repositories_with_date_range_def plain_response_def)
  moreover from fatal_status_short_circuit [OF f, where plat = steady and keyword = "''BRSET''"
      and attempt = 0 and max_retries = 5 and rest = "[Response (listing (JArr []))]" and trace = "[]"]
  have "search_hub_datasets steady ''BRSET'' 5
        [Response (plain_response 404 ''Not Found''), Response (listing (JArr []))] [] =
       (Done (JArr []), [Response (listing (JArr []))],
        [Get (List_hub_datasets ''BRSET''), Print_error 404 ''Not Found'', Print_fail])"
    by (simp add: search_hub_datasets_def plain_response_def)
  moreover from fatal_status_short_circuit [OF f, where plat = steady and page = 1 and limit = None
      and keyword = "''BRSET''" and per_page = 100 and attempt = 0 and all_datasets = "[]"
      and rest = "[Response (listing (JArr []))]" and trace = "[]"]
  have "search_kaggle_datasets steady ''BRSET'' 100 None
        [Response (plain_response 404 ''Not Found''), Response (listing (JArr []))] [] =
       (Done [], [Response (listing (JArr []))],
        [Get (List_kaggle_datasets ''BRSET'' 1 100), Print_error 404 ''Not Found''])"
    by (simp add: search_kaggle_datasets_def plain_response_def)
  ultimately show ?thesis using f by simp
qed

subsection \<open>C8: the sleeps of the backoff\<close>

lemma sleeps_append: "sleeps (xs @ ys) = sleeps xs @ sleeps ys"
  by (simp add: sleeps_def)

lemma sleeps_retries: "sleeps (retries q waits) = waits"
  by (induction waits) (simp_all add: sleeps_def retries_def)

lemma retries_Cons: "retries q (w # ws) = Get q # Sleep w # retries q ws"
  by (simp add: retries_def)

lemma scaled_hint_mono:
  fixes h x :: int
  assumes "0 \<le> h" and "h \<le> x" and "a \<le> b"
  shows "h * 2 ^ a \<le> x * 2 ^ b"
proof -
  have "(2::int) ^ a \<le> 2 ^ b" using assms(3) by (simp add: power_increasing)
  with assms show ?thesis by (intro mult_mono) simp_all
qed

lemma hub_waits_lower:
  "\<forall>x\<in>set hints. h \<le> x \<Longrightarrow> 0 \<le> h \<Longrightarrow> a \<le> b \<Longrightarrow> w \<in> set (hub_waits b hints)
     \<Longrightarrow> min (h * 2 ^ a) 60 \<le> w"
proof (induction hints arbitrary: b)
  case Nil
  then show ?case by simp
next
  case (Cons x hints)
  from Cons.prems have "h * 2 ^ a \<le> x * 2 ^ b"
    by (intro scaled_hint_mono) simp_all
  moreover have "w \<in> set (hub_waits (Suc b) hints) \<Longrightarrow> min (h * 2 ^ a) 60 \<le> w"
    using Cons.IH [of "Suc b"] Cons.prems by simp
  ultimately show ?case using Cons.prems(4) by auto
qed

lemma hub_waits_sorted:
  "sorted hints \<Longrightarrow> \<forall>h\<in>set hints. 0 \<le> h \<Longrightarrow> sorted (hub_waits a hints)"
proof (induction hints arbitrary: a)
  case Nil
  then show ?case by simp
next
  case (Cons h hints)
  then have "\<forall>w\<in>set (hub_waits (Suc a) hints). min (h * 2 ^ a) 60 \<le> w"
    using hub_waits_lower [of hints h a "Suc a"] by simp
  with Cons show ?case by simp
qed

lemma hub_waits_bounds:
  "\<forall>h\<in>set hints. 0 \<le> h \<Longrightarrow> w \<in> set (hub_waits a hints) \<Longrightarrow> 0 \<le> w \<and> w \<le> 60"
  by (induction hints arbitrary: a) auto

lemma kaggle_waits_lower:
  "\<forall>x\<in>set hints. h \<le> x \<Longrightarrow> 0 \<le> h \<Longrightarrow> a \<le> b \<Longrightarrow> w \<in> set (kaggle_waits b hints)
     \<Longrightarrow> max (h * 2 ^ a) 5 \<le> w"
proof (induction hints arbitrary: b)
  case Nil
  then show ?case by simp
next
  case (Cons x hints)
  from Cons.prems have "h * 2 ^ a \<le> x * 2 ^ b"
    by (intro scaled_hint_mono) simp_all
  moreover have "w \<in> set (kaggle_waits (Suc b) hints) \<Longrightarrow> max (h * 2 ^ a) 5 \<le> w"
    using Cons.IH [of "Suc b"] Cons.prems by simp
  ultimately show ?case using Cons.prems(4) by auto
qed

lemma kaggle_waits_sorted:
  "sorted hints \<Longrightarrow> \<forall>h\<in>set hints. 0 \<le> h \<Longrightarrow> sorted (kaggle_waits a hints)"
proof (induction hints arbitrary: a)
  case Nil
  then show ?case by simp
next
  case (Cons h hints)
  then have "\<forall>w\<in>set (kaggle_waits (Suc a) hints). max (h * 2 ^ a) 5 \<le> w"
    using kaggle_waits_lower [of hints h a "Suc a"] by simp
  with Cons show ?case by simp
qed

lemma printable_below: "\<bar>n\<bar> < 10 ^ 20 \<Longrightarrow> printable n"
proof -
  have "(10::int) ^ 20 \<le> 10 ^ 4300" by (rule power_increasing) simp_all
  moreover assume "\<bar>n\<bar> < 10 ^ 20"
  ultimately show ?thesis unfolding printable_def by (rule less_le_trans [rotated])
qed

lemma printable_small: "\<bar>n\<bar> \<le> sleep_max \<Longrightarrow> printable n"
  by (rule printable_below) (simp add: sleep_max_def)

lemma print_and_sleep_short: "0 \<le> w \<Longrightarrow> w \<le> 60 \<Longrightarrow> print_and_sleep plat t w = None"
  using printable_small [of w]
  by (simp add: print_and_sleep_def time_sleep_def sleep_max_def)

lemma print_and_sleep_carried:
  "carried_out plat waits \<Longrightarrow> w \<in> set waits \<Longrightarrow> 0 \<le> w \<Longrightarrow> print_and_sleep plat t w = None"
  using printable_small [of w]
  by (auto simp: print_and_sleep_def time_sleep_def carried_out_def)

lemma print_and_sleep_overflow:
  "printable w \<Longrightarrow> sleep_max < w \<Longrightarrow> print_and_sleep plat t w = Some OverflowError"
  by (simp add: print_and_sleep_def time_sleep_def)

lemma hub_attempts_throttled:
  "list_all2 throttled rs hints \<Longrightarrow> \<forall>h\<in>set hints. 0 \<le> h \<Longrightarrow>
   int attempt + int (length rs) \<le> max_retries \<Longrightarrow>
   hub_attempts plat keyword max_retries attempt (map Response rs @ rest) trace =
     hub_attempts plat keyword max_retries (attempt + length rs) rest
       (trace @ retries (List_hub_datasets keyword) (hub_waits attempt hints))"
proof (induction rs hints arbitrary: attempt trace rule: list_all2_induct)
  case Nil
  then show ?case by (simp add: retries_def)
next
  case (Cons r rs h hints)
  from Cons.prems have nonneg: "0 \<le> h * 2 ^ attempt" by simp
  from Cons.prems have more: "int attempt < max_retries" by simp
  from Cons.hyps(1) have r: "status_code r = 429" "header_int (headers r) ''Retry-After'' 5 = Some h"
    by (simp_all add: throttled_def)
  from nonneg have w: "print_and_sleep plat (trace @ [Get (List_hub_datasets keyword)])
                          (min (h * 2 ^ attempt) 60) = None"
    by (intro print_and_sleep_short) simp_all
  have "hub_attempts plat keyword max_retries attempt (map Response (r # rs) @ rest) trace =
        hub_attempts plat keyword max_retries (Suc attempt) (map Response rs @ rest)
          ((trace @ [Get (List_hub_datasets keyword)]) @ [Sleep (min (h * 2 ^ attempt) 60)])"
    using more r w by (simp add: Let_def)
  also have "\<dots> = hub_attempts plat keyword max_retries (Suc attempt + length rs) rest
          (((trace @ [Get (List_hub_datasets keyword)]) @ [Sleep (min (h * 2 ^ attempt) 60)])
             @ retries (List_hub_datasets keyword) (hub_waits (Suc attempt) hints))"
    using Cons.prems by (intro Cons.IH) simp_all
  finally show ?case by (simp add: retries_Cons)
qed

lemma kaggle_waits_least: "w \<in> set (kaggle_waits a hints) \<Longrightarrow> 5 \<le> w"
  by (induction hints arbitrary: a) auto

lemma kaggle_pages_throttled:
  "list_all2 throttled rs hints \<Longrightarrow>
   \<not> (case limit of None \<Rightarrow> False | Some m \<Rightarrow> m \<noteq> 0 \<and> page > m) \<Longrightarrow>
   carried_out plat (kaggle_waits attempt hints) \<Longrightarrow>
   kaggle_pages plat keyword per_page limit page attempt all_datasets (map Response rs @ rest) trace =
     kaggle_pages plat keyword per_page limit page (attempt + length rs) all_datasets rest
       (trace @ retries (List_kaggle_datasets keyword page per_page) (kaggle_waits attempt hints))"
proof (induction rs hints arbitrary: attempt trace rule: list_all2_induct)
  case Nil
  then show ?case by (simp add: retries_def)
next
  case (Cons r rs h hints)
  from Cons.hyps(1) have r: "status_code r = 429" "header_int (headers r) ''Retry-After'' 5 = Some h"
    by (simp_all add: throttled_def)
  from Cons.prems(2) have later: "carried_out plat (kaggle_waits (Suc attempt) hints)"
    by (simp add: carried_out_def)
  have w: "print_and_sleep plat (trace @ [Get (List_kaggle_datasets keyword page per_page)])
             (max (h * 2 ^ attempt) 5) = None"
    using Cons.prems(2) by (intro print_and_sleep_carried [of plat "kaggle_waits attempt (h # hints)"]) simp_all
  have "kaggle_pages plat keyword per_page limit page attempt all_datasets (map Response (r # rs) @ rest) trace =
        kaggle_pages plat keyword per_page limit page (Suc attempt) all_datasets (map Response rs @ rest)
          ((trace @ [Get (List_kaggle_datasets keyword page per_page)]) @ [Sleep (max (h * 2 ^ attempt) 5)])"
    using Cons.prems(1) r w by (simp add: Let_def)
  also have "\<dots> = kaggle_pages plat keyword per_page limit page (Suc attempt + length rs) all_datasets rest
          (((trace @ [Get (List_kaggle_datasets keyword page per_page)]) @ [Sleep (max (h * 2 ^ attempt) 5)])
             @ retries (List_kaggle_datasets keyword page per_page) (kaggle_waits (Suc attempt) hints))"
    using Cons.prems(1) later by (intro Cons.IH) simp_all
  finally show ?case by (simp add: retries_Cons)
qed

lemma kaggle_pages_overflow:
  assumes "throttled r h"
    and "\<not> (case limit of None \<Rightarrow> False | Some m \<Rightarrow> m \<noteq> 0 \<and> page > m)"
    and "printable (max (h * 2 ^ attempt) 5)" and "sleep_max < max (h * 2 ^ attempt) 5"
  shows "kaggle_pages plat keyword per_page limit page attempt all_datasets (Response r # rest) trace =
           (Raised OverflowError, rest, trace @ [Get (List_kaggle_datasets keyword page per_page)])"
proof -
  from assms(1) have r: "status_code r = 429" "header_int (headers r) ''Retry-After'' 5 = Some h"
    by (simp_all add: throttled_def)
  from print_and_sleep_overflow [OF assms(3,4)] assms(2) r show ?thesis
    by (simp add: Let_def)
qed

lemma kaggle_pages_unprintable:
  assumes "throttled r h"
    and "\<not> (case limit of None \<Rightarrow> False | Some m \<Rightarrow> m \<noteq> 0 \<and> page > m)"
    and "\<not> printable (max (h * 2 ^ attempt) 5)"
  shows "kaggle_pages plat keyword per_page limit page attempt all_datasets (Response r # rest) trace =
           (Raised ValueError, rest, trace @ [Get (List_kaggle_datasets keyword page per_page)])"
proof -
  from assms(1) have r: "status_code r = 429" "header_int (headers r) ''Retry-After'' 5 = Some h"
    by (simp_all add: throttled_def)
  from assms(2,3) r show ?thesis
    by (simp add: Let_def print_and_sleep_def)
qed

text \<open>
  Claim C8, as amended. For a run of 429 replies whose retry hints (the \<^verbatim>\<open>Retry-After\<close>
  header, 5 in its absence) are not negative and do not decrease from one reply to the
  next, in particular for a constant hint: the hub search, while it has attempts left,
  sleeps hint times two to the attempt, capped at 60 seconds, after each of them, and
  these sleeps do not decrease with the attempt and stay within 0 and 60. The
  competition-catalog search sleeps hint times two to the attempt, 5 seconds at least,
  after each of them, as long as each of these sleeps takes place: it is of at most
  9223372036 seconds, the longest that \<^verbatim>\<open>time.sleep\<close> accepts, and the operating system
  carries it out; these sleeps do not decrease either, and they have no ceiling below
  that bound. On a 429 whose sleep would be longer than 9223372036 seconds, the
  competition-catalog search raises and sleeps no more: \<^verbatim>\<open>OverflowError\<close> from
  \<^verbatim>\<open>time.sleep\<close>, or \<^verbatim>\<open>ValueError\<close> from the line that announces the sleep when its
  number of seconds has more than 4300 digits.
\<close>

theorem backoff_monotone:
  assumes "list_all2 throttled rs hints" and "sorted hints" and "\<forall>h\<in>set hints. 0 \<le> h"
  shows "(int attempt + int (length rs) \<le> max_retries \<longrightarrow>
            hub_attempts plat keyword max_retries attempt (map Response rs @ rest) trace =
              hub_attempts plat keyword max_retries (attempt + length rs) rest
                (trace @ retries (List_hub_datasets keyword) (hub_waits attempt hints)))
       \<and> sleeps (retries (List_hub_datasets keyword) (hub_waits attempt hints)) = hub_waits attempt hints
       \<and> sorted (hub_waits attempt hints)
       \<and> (\<forall>w\<in>set (hub_waits attempt hints). 0 \<le> w \<and> w \<le> 60)
       \<and> (\<not> (case limit of None \<Rightarrow> False | Some m \<Rightarrow> m \<noteq> 0 \<and> page > m)
            \<and> carried_out plat (kaggle_waits attempt hints) \<longrightarrow>
            kaggle_pages plat keyword per_page limit page attempt all_datasets (map Response rs @ rest) trace =
              kaggle_pages plat keyword per_page limit page (attempt + length rs) all_datasets rest
                (trace @ retries (List_kaggle_datasets keyword page per_page) (kaggle_waits attempt hints)))
       \<and> sleeps (retries (List_kaggle_datasets keyword page per_page) (kaggle_waits attempt hints))
            = kaggle_waits attempt hints
       \<and> sorted (kaggle_waits attempt hints)
       \<and> (\<forall>w\<in>set (kaggle_waits attempt hints). 5 \<le> w)
       \<and> (\<forall>r h. throttled r h
            \<and> \<not> (case limit of None \<Rightarrow> False | Some m \<Rightarrow> m \<noteq> 0 \<and> page > m)
            \<and> printable (max (h * 2 ^ attempt) 5) \<and> sleep_max < max (h * 2 ^ attempt) 5 \<longrightarrow>
            kaggle_pages plat keyword per_page limit page attempt all_datasets (Response r # rest) trace =
              (Raised OverflowError, rest, trace @ [Get (List_kaggle_datasets keyword page per_page)]))
       \<and> (\<forall>r h. throttled r h
            \<and> \<not> (case limit of None \<Rightarrow> False | Some m \<Rightarrow> m \<noteq> 0 \<and> page > m)
            \<and> \<not> printable (max (h * 2 ^ attempt) 5) \<longrightarrow>
            kaggle_pages plat keyword per_page limit page attempt all_datasets (Response r # rest) trace =
              (Raised ValueError, rest, trace @ [Get (List_kaggle_datasets keyword page per_page)]))"
proof -
  have a: "int attempt + int (length rs) \<le> max_retries \<longrightarrow>
            hub_attempts plat keyword max_retries attempt (map Response rs @ rest) trace =
              hub_attempts plat keyword max_retries (attempt + length rs) rest
                (trace @ retries (List_hub_datasets keyword) (hub_waits attempt hints))"
    using hub_attempts_throttled [OF assms(1,3)] by blast
  have b: "sleeps (retries (List_hub_datasets keyword) (hub_waits attempt hints)) = hub_waits attempt hints"
    by (rule sleeps_retries)
  have c: "sorted (hub_waits attempt hints)"
    by (rule hub_waits_sorted [OF assms(2,3)])
  have d: "\<forall>w\<in>set (hub_waits attempt hints). 0 \<le> w \<and> w \<le> 60"
    using hub_waits_bounds [OF assms(3)] by blast
  have e: "\<not> (case limit of None \<Rightarrow> False | Some m \<Rightarrow> m \<noteq> 0 \<and> page > m)
            \<and> carried_out plat (kaggle_waits attempt hints) \<longrightarrow>
            kaggle_pages plat keyword per_page limit page attempt all_datasets (map Response rs @ rest) trace =
              kaggle_pages plat keyword per_page limit page (attempt + length rs) all_datasets rest
                (trace @ retries (List_kaggle_datasets keyword page per_page) (kaggle_waits attempt hints))"
    using kaggle_pages_throttled [OF assms(1)] by blast
  have f: "sleeps (retries (List_kaggle_datasets keyword page per_page) (kaggle_waits attempt hints))
            = kaggle_waits attempt hints"
    by (rule sleeps_retries)
  have g: "sorted (kaggle_waits attempt hints)"
    by (rule kaggle_waits_sorted [OF assms(2,3)])
  have h: "\<forall>w\<in>set (kaggle_waits attempt hints). 5 \<le> w"
    using kaggle_waits_least by blast
  have i: "\<forall>r h. throttled r h
            \<and> \<not> (case limit of None \<Rightarrow> False | Some m \<Rightarrow> m \<noteq> 0 \<and> page > m)
            \<and> printable (max (h * 2 ^ attempt) 5) \<and> sleep_max < max (h * 2 ^ attempt) 5 \<longrightarrow>
            kaggle_pages plat keyword per_page limit page attempt all_datasets (Response r # rest) trace =
              (Raised OverflowError, rest, trace @ [Get (List_kaggle_datasets keyword page per_page)])"
    using kaggle_pages_overflow by blast
  have j: "\<forall>r h. throttled r h
            \<and> \<not> (case limit of None \<Rightarrow> False | Some m \<Rightarrow> m \<noteq> 0 \<and> page > m)
            \<and> \<not> printable (max (h * 2 ^ attempt) 5) \<longrightarrow>
            kaggle_pages plat keyword per_page limit page attempt all_datasets (Response r # rest) trace =
              (Raised ValueError, rest, trace @ [Get (List_kaggle_datasets keyword page per_page)])"
    using kaggle_pages_unprintable by blast
  from a b c d e f g h i j show ?thesis by (intro conjI)
qed

lemma retry_after_sample:
  "throttled (too_many_requests ''1'') 1"
  "throttled (too_many_requests ''30'') 30"
  "throttled (too_many_requests ''50'') 50"
  "throttled (too_many_requests ''100'') 100"
  "throttled (too_many_requests ''10000000000'') 10000000000"
  by (simp_all add: throttled_def too_many_requests_def header_int_def header_get_def py_lower_def
      lower_char_def py_int_def is_int_space_def is_digit_def digit_val_def)

text \<open>
  Hints of 50 and of 100 seconds: the hub search sleeps 50 and 60 seconds, the
  competition-catalog search 50 and 200; on a hint of 10000000000 seconds the
  competition-catalog search raises.
\<close>

theorem backoff_monotone_witness:
  "list_all2 throttled [too_many_requests ''50'', too_many_requests ''100''] [50, 100]
   \<and> sorted [50, 100 :: int]
   \<and> carried_out steady [50, 200]
   \<and> search_hub_datasets steady ''BRSET'' 5
        (map Response [too_many_requests ''50'', too_many_requests ''100''] @ [Response (listing (JArr []))]) [] =
       (Done (JArr []), [],
        [Get (List_hub_datasets ''BRSET''), Sleep 50, Get (List_hub_datasets ''BRSET''), Sleep 60,
         Get (List_hub_datasets ''BRSET'')])
   \<and> search_kaggle_datasets steady ''BRSET'' 100 None
        (map Response [too_many_requests ''50'', too_many_requests ''100''] @ [Response (listing (JArr []))]) [] =
       (Done [], [],
        [Get (List_kaggle_datasets ''BRSET'' 1 100), Sleep 50, Get (List_kaggle_datasets ''BRSET'' 1 100),
         Sleep 200, Get (List_kaggle_datasets ''BRSET'' 1 100)])
   \<and> search_kaggle_datasets steady ''BRSET'' 100 None
        [Response (too_many_requests ''10000000000''), Response (listing (JArr []))] [] =
       (Raised OverflowError, [Response (listing (JArr []))], [Get (List_kaggle_datasets ''BRSET'' 1 100)])"
proof -
  have t: "list_all2 throttled [too_many_requests ''50'', too_many_requests ''100''] [50, 100]"
    using retry_after_sample by simp
  have s: "sorted [50, 100 :: int]" and n: "\<forall>h\<in>set [50, 100 :: int]. 0 \<le> h" by simp_all
  have c: "carried_out steady [50, 200]"
    by (simp add: carried_out_def steady_def sleep_max_def)
  note bm = backoff_monotone [OF t s n, where plat = steady and attempt = 0 and keyword = "''BRSET''"
      and rest = "[Response (listing (JArr []))]" and trace = "[]" and max_retries = 5
      and limit = None and page = 1 and per_page = 100 and all_datasets = "[]"]
  from bm [THEN conjunct1] have eq: "hub_attempts steady ''BRSET'' 5 0
          (map Response [too_many_requests ''50'', too_many_requests ''100''] @ [Response (listing (JArr []))]) [] =
        hub_attempts steady ''BRSET'' 5 (Suc (Suc 0)) [Response (listing (JArr []))]
          (retries (List_hub_datasets ''BRSET'') [50, 60])"
    by (simp del: hub_attempts.simps kaggle_pages.simps)
  have hub: "search_hub_datasets steady ''BRSET'' 5
        (map Response [too_many_requests ''50'', too_many_requests ''100''] @ [Response (listing (JArr []))]) [] =
       (Done (JArr []), [],
        [Get (List_hub_datasets ''BRSET''), Sleep 50, Get (List_hub_datasets ''BRSET''), Sleep 60,
         Get (List_hub_datasets ''BRSET'')])"
    unfolding search_hub_datasets_def eq
    by (simp add: retries_def listing_def)
  from bm [THEN conjunct2, THEN conjunct2, THEN conjunct2, THEN conjunct2, THEN conjunct1] c
  have eq': "kaggle_pages steady ''BRSET'' 100 None 1 0 []
          (map Response [too_many_requests ''50'', too_many_requests ''100''] @ [Response (listing (JArr []))]) [] =
        kaggle_pages steady ''BRSET'' 100 None 1 (Suc (Suc 0)) [] [Response (listing (JArr []))]
          (retries (List_kaggle_datasets ''BRSET'' 1 100) [50, 200])"
    by (simp del: hub_attempts.simps kaggle_pages.simps)
  have catalog: "search_kaggle_datasets steady ''BRSET'' 100 None
        (map Response [too_many_requests ''50'', too_many_requests ''100''] @ [Response (listing (JArr []))]) [] =
       (Done [], [],
        [Get (List_kaggle_datasets ''BRSET'' 1 100), Sleep 50, Get (List_kaggle_datasets ''BRSET'' 1 100),
         Sleep 200, Get (List_kaggle_datasets ''BRSET'' 1 100)])"
    unfolding search_kaggle_datasets_def eq'
    by (simp add: retries_def listing_def)
  have p: "printable (max (10000000000 * 2 ^ 0) 5)"
    by (rule printable_below) simp
  from bm [THEN conjunct2, THEN conjunct2, THEN conjunct2, THEN conjunct2, THEN conjunct2,
      THEN conjunct2, THEN conjunct2, THEN conjunct2, THEN conjunct1, rule_format,
      of "too_many_requests ''10000000000''" 10000000000] retry_after_sample(5) p
  have over: "kaggle_pages steady ''BRSET'' 100 None 1 0 []
        (Response (too_many_requests ''10000000000'') # [Response (listing (JArr []))]) [] =
       (Raised OverflowError, [Response (listing (JArr []))], [] @ [Get (List_kaggle_datasets ''BRSET'' 1 100)])"
    by (simp add: sleep_max_def del: hub_attempts.simps kaggle_pages.simps)
  then have "search_kaggle_datasets steady ''BRSET'' 100 None
        [Response (too_many_requests ''10000000000''), Response (listing (JArr []))] [] =
       (Raised OverflowError, [Response (listing (JArr []))], [Get (List_kaggle_datasets ''BRSET'' 1 100)])"
    by (simp add: search_kaggle_datasets_def del: kaggle_pages.simps)
  with t s c hub catalog show ?thesis by (intro conjI)
qed

text \<open>
  A hint of 30 seconds followed by a hint of 1 second: the hub search sleeps 30 seconds,
  then 2.
\<close>

theorem backoff_monotone_counterexample:
  "search_hub_datasets steady ''BRSET'' 5
     [Response (too_many_requests ''30''), Response (too_many_requests ''1''),
      Response (listing (JArr []))] [] =
     (Done (JArr []), [],
      [Get (List_hub_datasets ''BRSET''), Sleep 30, Get (List_hub_datasets ''BRSET''), Sleep 2,
       Get (List_hub_datasets ''BRSET'')])
   \<and> sleeps [Get (List_hub_datasets ''BRSET''), Sleep 30, Get (List_hub_datasets ''BRSET''), Sleep 2,
              Get (List_hub_datasets ''BRSET'')] = [30, 2]
   \<and> \<not> sorted [30, 2 :: int]"
proof -
  have "status_code (too_many_requests ''30'') = 429" "status_code (too_many_requests ''1'') = 429"
    by (simp_all add: too_many_requests_def)
  moreover have "header_int (headers (too_many_requests ''30'')) ''Retry-After'' 5 = Some 30"
    "header_int (headers (too_many_requests ''1'')) ''Retry-After'' 5 = Some 1"
    using retry_after_sample by (simp_all add: throttled_def)
  ultimately show ?thesis
    by (simp add: search_hub_datasets_def Let_def listing_def sleeps_def print_and_sleep_short)
qed

subsection \<open>C9: partitioning the date range\<close>

declare windows.simps [simp del]
declare partition_loop.simps [simp del]

lemma usec_per_day_pos: "0 < usec_per_day"
  by (simp add: usec_per_day_def)

lemma windows_step:
  "current < end_date \<Longrightarrow> 0 < interval_days \<Longrightarrow>
     windows current end_date interval_days =
       (current, min (current + interval_days * usec_per_day) end_date)
         # windows (min (current + interval_days * usec_per_day) end_date) end_date interval_days"
  by (subst windows.simps) simp

lemma windows_done: "\<not> (current < end_date \<and> 0 < interval_days) \<Longrightarrow> windows current end_date interval_days = []"
  by (subst windows.simps) simp

lemma step_forward: "0 < interval_days \<Longrightarrow> current < current + interval_days * usec_per_day"
  using usec_per_day_pos by simp

lemma windows_first:
  assumes "current < end_date" and "0 < interval_days"
  shows "windows current end_date interval_days \<noteq> []
       \<and> fst (hd (windows current end_date interval_days)) = current"
  by (simp add: windows_step [OF assms])

lemma windows_last:
  "current < end_date \<Longrightarrow> 0 < interval_days \<Longrightarrow>
     snd (last (windows current end_date interval_days)) = end_date"
proof (induction current end_date interval_days rule: windows.induct)
  case (1 current end_date interval_days)
  let ?next = "min (current + interval_days * usec_per_day) end_date"
  show ?case
  proof (cases "?next < end_date")
    case True
    with "1.IH" "1.prems" have "snd (last (windows ?next end_date interval_days)) = end_date"
      by simp
    moreover from True "1.prems" have "windows ?next end_date interval_days \<noteq> []"
      using windows_first by blast
    ultimately show ?thesis
      by (simp add: windows_step [OF "1.prems"])
  next
    case False
    then have "?next = end_date" by simp
    moreover have "windows end_date end_date interval_days = []"
      by (simp add: windows_done)
    ultimately show ?thesis
      by (simp add: windows_step [OF "1.prems"])
  qed
qed

lemma windows_each:
  "w \<in> set (windows current end_date interval_days) \<Longrightarrow>
     fst w < snd w \<and> snd w - fst w \<le> interval_days * usec_per_day"
proof (induction current end_date interval_days rule: windows.induct)
  case (1 current end_date interval_days)
  show ?case
  proof (cases "current < end_date \<and> 0 < interval_days")
    case True
    let ?next = "min (current + interval_days * usec_per_day) end_date"
    from True step_forward [of interval_days current]
    have here: "current < ?next \<and> ?next - current \<le> interval_days * usec_per_day"
      by auto
    from "1.prems" True have "w = (current, ?next) \<or> w \<in> set (windows ?next end_date interval_days)"
      by (simp add: windows_step)
    with here "1.IH" [OF True] show ?thesis by auto
  next
    case False
    with "1.prems" show ?thesis by (simp add: windows_done)
  qed
qed

lemma windows_consecutive:
  "Suc i < length (windows current end_date interval_days) \<Longrightarrow>
     snd (windows current end_date interval_days ! i) = fst (windows current end_date interval_days ! Suc i)"
proof (induction current end_date interval_days arbitrary: i rule: windows.induct)
  case (1 current end_date interval_days)
  show ?case
  proof (cases "current < end_date \<and> 0 < interval_days")
    case True
    let ?next = "min (current + interval_days * usec_per_day) end_date"
    from True have ws: "windows current end_date interval_days = (current, ?next) # windows ?next end_date interval_days"
      by (simp add: windows_step)
    show ?thesis
    proof (cases i)
      case 0
      with "1.prems" ws have ne: "windows ?next end_date interval_days \<noteq> []" by auto
      then have "?next < end_date \<and> 0 < interval_days"
        using windows_done by blast
      then have "fst (hd (windows ?next end_date interval_days)) = ?next"
        using windows_first by blast
      with ne have "fst (windows ?next end_date interval_days ! 0) = ?next"
        by (simp add: hd_conv_nth)
      with 0 ws show ?thesis by simp
    next
      case (Suc j)
      with "1.prems" ws have "Suc j < length (windows ?next end_date interval_days)" by simp
      from "1.IH" [OF True this] Suc ws show ?thesis by simp
    qed
  next
    case False
    with "1.prems" show ?thesis by (simp add: windows_done)
  qed
qed

lemma partition_loop_sweep:
  "0 < interval_days \<Longrightarrow> interval_days \<le> 999999999 \<Longrightarrow> 0 \<le> current \<Longrightarrow>
   end_date + interval_days * usec_per_day \<le> datetime_max \<Longrightarrow>
   partition_loop plat keyword end_date interval_days current all_results script trace =
     (case sweep plat keyword (windows current end_date interval_days) script trace of
        (Done found, script', trace') \<Rightarrow> (Done (all_results @ found), script', trace')
      | (Raised e, script', trace') \<Rightarrow> (Raised e, script', trace')
      | (Starved, script', trace') \<Rightarrow> (Starved, script', trace'))"
proof (induction current end_date interval_days arbitrary: all_results script trace rule: windows.induct)
  case (1 current end_date interval_days)
  show ?case
  proof (cases "current < end_date")
    case False
    then show ?thesis
      by (simp add: windows_done partition_loop.simps)
  next
    case True
    let ?stepped = "current + interval_days * usec_per_day"
    let ?next = "min ?stepped end_date"
    from True "1.prems" step_forward [of interval_days current]
    have add: "datetime_add_days current interval_days = Inr ?stepped"
      by (simp add: datetime_add_days_def)
    from True "1.prems" step_forward [of interval_days current] have next0: "0 \<le> ?next"
      by simp
    have ws: "windows current end_date interval_days = (current, ?next) # windows ?next end_date interval_days"
      using True "1.prems" by (simp add: windows_step)
    obtain res script' trace' where s:
      "search_repositories_with_date_range plat keyword (day_of current) (day_of ?next) 100 10 script trace
         = (res, script', trace')"
      by (metis prod_cases3)
    show ?thesis
    proof (cases res)
      case (Done repos)
      have "partition_loop plat keyword end_date interval_days current all_results script trace =
            partition_loop plat keyword end_date interval_days ?next (all_results @ repos) script' trace'"
        using True add s Done by (subst partition_loop.simps) simp
      also have "\<dots> =
        (case sweep plat keyword (windows ?next end_date interval_days) script' trace' of
           (Done found, script'', trace'') \<Rightarrow> (Done ((all_results @ repos) @ found), script'', trace'')
         | (Raised e, script'', trace'') \<Rightarrow> (Raised e, script'', trace'')
         | (Starved, script'', trace'') \<Rightarrow> (Starved, script'', trace''))"
        using True "1.prems" next0 by (intro "1.IH") simp_all
      finally show ?thesis
        using s Done by (simp add: ws split: prod.splits outcome.splits)
    next
      case (Raised e)
      with True add s show ?thesis
        by (subst partition_loop.simps) (simp add: ws)
    next
      case Starved
      with True add s show ?thesis
        by (subst partition_loop.simps) (simp add: ws)
    qed
  qed
qed

text \<open>
  Claim C9, as amended. For a start before the end and a positive number of days, as long
  as the end plus the interval is a date Python can represent (up to year 9999, an
  interval of at most 999999999 days): the adapter does what a sweep over the windows
  does, one paged search per window in the order of the windows, returning the
  concatenation of their results, or stopping at the first search that does not return.
  The windows start at the start, end at the end, each begins where the one before
  ended, and each is longer than nothing and at most the interval long.
\<close>

theorem date_range_partitioning:
  assumes "start_date < end_date" and "0 < interval_days" and "interval_days \<le> 999999999"
    and "0 \<le> start_date" and "end_date + interval_days * usec_per_day \<le> datetime_max"
  shows "partition_and_search plat keyword start_date end_date interval_days script trace =
           sweep plat keyword (windows start_date end_date interval_days) script trace
       \<and> windows start_date end_date interval_days \<noteq> []
       \<and> fst (hd (windows start_date end_date interval_days)) = start_date
       \<and> snd (last (windows start_date end_date interval_days)) = end_date
       \<and> (\<forall>i. Suc i < length (windows start_date end_date interval_days) \<longrightarrow>
             snd (windows start_date end_date interval_days ! i)
               = fst (windows start_date end_date interval_days ! Suc i))
       \<and> (\<forall>w\<in>set (windows start_date end_date interval_days).
             fst w < snd w \<and> snd w - fst w \<le> interval_days * usec_per_day)"
proof -
  have "partition_and_search plat keyword start_date end_date interval_days script trace =
           sweep plat keyword (windows start_date end_date interval_days) script trace"
    unfolding partition_and_search_def
    by (subst partition_loop_sweep [OF assms(2,3,4,5)]) (simp split: prod.splits outcome.splits)
  with windows_first [OF assms(1,2)] windows_last [OF assms(1,2)] windows_consecutive windows_each
  show ?thesis by blast
qed

text \<open>
  The scenario of the specification: 45 days in windows of 30, two repositories in the
  first window, one in the second.
\<close>

lemma two_windows:
  "windows jan_1_2025 feb_15_2025 30 =
     [(jan_1_2025, 739281 * usec_per_day), (739281 * usec_per_day, feb_15_2025)]"
proof -
  have a: "windows jan_1_2025 feb_15_2025 30 =
      (jan_1_2025, 739281 * usec_per_day) # windows (739281 * usec_per_day) feb_15_2025 30"
    by (subst windows.simps) (simp add: jan_1_2025_def feb_15_2025_def usec_per_day_def)
  have b: "windows (739281 * usec_per_day) feb_15_2025 30 =
      (739281 * usec_per_day, feb_15_2025) # windows feb_15_2025 feb_15_2025 30"
    by (subst windows.simps) (simp add: feb_15_2025_def usec_per_day_def)
  have c: "windows feb_15_2025 feb_15_2025 30 = []"
    by (simp add: windows_done)
  from a b c show ?thesis by simp
qed

lemma two_windows_sweep:
  "sweep plat ''BRSET'' [(jan_1_2025, 739281 * usec_per_day), (739281 * usec_per_day, feb_15_2025)]
     two_windows_script [] =
     (Done [repo_named ''a/one'', repo_named ''b/two'', repo_named ''c/three''], [],
      [Get (Search_repositories ''BRSET'' 739251 739281 100 1),
       Get (Search_repositories ''BRSET'' 739251 739281 100 2),
       Get (Search_repositories ''BRSET'' 739281 739296 100 1),
       Get (Search_repositories ''BRSET'' 739281 739296 100 2)])"
  by (simp add: two_windows_script_def page_of_def listing_def search_repositories_with_date_range_def
      rate_limited_def page_items_def repo_named_def day_of_def jan_1_2025_def feb_15_2025_def
      usec_per_day_def Let_def)

theorem date_range_partitioning_witness:
  "jan_1_2025 < feb_15_2025 \<and> (0::int) < 30
   \<and> feb_15_2025 + 30 * usec_per_day \<le> datetime_max
   \<and> windows jan_1_2025 feb_15_2025 30 =
       [(jan_1_2025, 739281 * usec_per_day), (739281 * usec_per_day, feb_15_2025)]
   \<and> partition_and_search steady ''BRSET'' jan_1_2025 feb_15_2025 30 two_windows_script [] =
       (Done [repo_named ''a/one'', repo_named ''b/two'', repo_named ''c/three''], [],
        [Get (Search_repositories ''BRSET'' 739251 739281 100 1),
         Get (Search_repositories ''BRSET'' 739251 739281 100 2),
         Get (Search_repositories ''BRSET'' 739281 739296 100 1),
         Get (Search_repositories ''BRSET'' 739281 739296 100 2)])"
proof -
  have h: "jan_1_2025 < feb_15_2025" "(0::int) < 30" "(30::int) \<le> 999999999" "0 \<le> jan_1_2025"
    "feb_15_2025 + 30 * usec_per_day \<le> datetime_max"
    by (simp_all add: jan_1_2025_def feb_15_2025_def usec_per_day_def datetime_max_def)
  from date_range_partitioning [OF h, where plat = steady and keyword = "''BRSET''"
      and script = two_windows_script and trace = "[]"]
  have "partition_and_search steady ''BRSET'' jan_1_2025 feb_15_2025 30 two_windows_script [] =
          sweep steady ''BRSET'' (windows jan_1_2025 feb_15_2025 30) two_windows_script []"
    by blast
  with two_windows two_windows_sweep h show ?thesis by simp
qed

text \<open>
  An interval of 4000000 days: the first \<^verbatim>\<open>current + timedelta(days=interval_days)\<close> leaves
  the range of \<^verbatim>\<open>datetime\<close> and the adapter raises before any search.
\<close>

theorem date_range_partitioning_counterexample:
  "jan_1_2025 < apr_15_2025 \<and> (0::int) < 4000000
   \<and> partition_and_search steady ''BRSET'' jan_1_2025 apr_15_2025 4000000 two_windows_script [] =
       (Raised OverflowError, two_windows_script, [])"
proof -
  have "datetime_add_days jan_1_2025 4000000 = Inl OverflowError"
    by (simp add: datetime_add_days_def jan_1_2025_def usec_per_day_def datetime_max_def)
  moreover have "jan_1_2025 < apr_15_2025"
    by (simp add: jan_1_2025_def apr_15_2025_def usec_per_day_def)
  ultimately show ?thesis
    unfolding partition_and_search_def
    by (subst partition_loop.simps) simp
qed

subsection \<open>C1: records through enrichment\<close>

lemma for_each_run_length:
  "for_each_run f acc xs script trace = (Done out, script', trace') \<Longrightarrow>
     length out = length acc + length xs"
proof (induction xs arbitrary: acc script trace)
  case Nil
  then show ?case by auto
next
  case (Cons x xs)
  obtain res s t where step: "f x script trace = (res, s, t)"
    by (metis prod_cases3)
  show ?case
  proof (cases res)
    case (Done y)
    with step Cons.prems have "for_each_run f (acc @ [y]) xs s t = (Done out, script', trace')"
      by simp
    from Cons.IH [OF this] show ?thesis by simp
  next
    case (Raised e)
    with step Cons.prems show ?thesis by simp
  next
    case Starved
    with step Cons.prems show ?thesis by simp
  qed
qed

lemma fetch_refused:
  assumes "readme_refused r"
  shows "\<exists>trace'. fetch_repo_readme plat name (Response r # rest) trace = (Done None, rest, trace')"
proof -
  from assms obtain n where n: "header_int (headers r) ''X-RateLimit-Remaining'' 1 = Some n" "n \<noteq> 0"
    by (auto simp: readme_refused_def split: option.splits)
  from assms obtain reset where
    reset: "(case header_get (headers r) ''X-RateLimit-Reset'' of
               None \<Rightarrow> Some None | Some v \<Rightarrow> map_option Some (py_int v)) = Some reset"
    by (auto simp: readme_refused_def split: option.splits)
  from assms have "status_code r \<noteq> 200" "status_code r \<noteq> 403" "status_code r \<noteq> 429"
    by (simp_all add: readme_refused_def)
  with n reset show ?thesis by (simp add: Let_def)
qed

lemma process_refused:
  assumes "readable_repo repo" and "readme_refused r"
  shows "\<exists>p trace'. process_repository plat repo (Response r # rest) trace = (Done p, rest, trace')
           \<and> lookup p ''readme'' = Some JNull"
proof -
  from assms(1) obtain kv where kv: "repo = JObj kv"
    by (cases repo) (simp_all add: readable_repo_def)
  from assms(1) kv obtain license where
    l: "(if truthy (get_or kv ''license'' JNull)
         then dict_get (get_or kv ''license'' (JObj [])) ''name'' JNull else Inr JNull) = Inr license"
    by (cases "get_or kv ''license'' JNull")
      (auto simp: readable_repo_def get_or_def split: option.splits if_splits)
  from fetch_refused [OF assms(2)] obtain trace' where
    "fetch_repo_readme plat (get_or kv ''full_name'' (JStr [])) (Response r # rest) trace = (Done None, rest, trace')"
    by blast
  with kv l show ?thesis
    by (simp add: process_repository_def lookup_def)
qed

lemma for_each_run_refused:
  "list_all2 (\<lambda>repo r. readable_repo repo \<and> readme_refused r) repos rs \<Longrightarrow>
   list_all (\<lambda>p. lookup p ''readme'' = Some JNull) acc \<Longrightarrow>
   \<exists>out trace'. for_each_run (process_repository plat) acc repos (map Response rs @ rest) trace = (Done out, rest, trace')
      \<and> length out = length acc + length repos
      \<and> list_all (\<lambda>p. lookup p ''readme'' = Some JNull) out"
proof (induction repos rs arbitrary: acc trace rule: list_all2_induct)
  case Nil
  then show ?case by simp
next
  case (Cons repo repos r rs)
  from process_refused [where repo = repo and r = r and plat = plat
      and rest = "map Response rs @ rest" and trace = trace] Cons.hyps(1)
  obtain p t where p: "process_repository plat repo (Response r # map Response rs @ rest) trace
      = (Done p, map Response rs @ rest, t)" "lookup p ''readme'' = Some JNull"
    by blast
  from Cons.prems p(2) have "list_all (\<lambda>p. lookup p ''readme'' = Some JNull) (acc @ [p])"
    by simp
  from Cons.IH [OF this, of t] obtain out trace' where
    "for_each_run (process_repository plat) (acc @ [p]) repos (map Response rs @ rest) t = (Done out, rest, trace')"
    "length out = length (acc @ [p]) + length repos"
    "list_all (\<lambda>p. lookup p ''readme'' = Some JNull) out"
    by blast
  with p(1) show ?case by simp
qed

lemma collected_length: "length (collected results) = length (filter is_done results)"
  by (induction results) (simp_all add: collected_def is_done_def split: outcome.splits)

lemma completed_all:
  "mset (map ((!) futures) (as_completed finish (length futures))) = mset futures"
proof -
  have "mset (map ((!) futures) (as_completed finish (length futures)))
          = image_mset ((!) futures) (mset (sort_key finish [0..<length futures]))"
    by (simp add: as_completed_def)
  also have "\<dots> = image_mset ((!) futures) (mset [0..<length futures])"
    by simp
  also have "\<dots> = mset (map ((!) futures) [0..<length futures])"
    by simp
  also have "\<dots> = mset futures"
    by (simp add: map_nth)
  finally show ?thesis .
qed

lemma filter_length_mset: "mset xs = mset ys \<Longrightarrow> length (filter P xs) = length (filter P ys)"
  by (metis mset_filter size_mset)

lemma kaggle_task_fun:
  "kaggle_task plat datasets scripts = (\<lambda>i. fst (process_kaggle_dataset plat (datasets ! i) (scripts i) []))"
  by (rule ext) (simp add: kaggle_task_def)

lemma collected_mset:
  assumes "mset xs = mset ys"
  shows "mset (collected xs) = mset (collected ys)"
proof -
  have c: "mset (collected zs) = sum_mset (image_mset (\<lambda>res. mset (case res of Done r \<Rightarrow> [r] | _ \<Rightarrow> [])) (mset zs))"
    for zs :: "json outcome list"
    by (induction zs) (simp_all add: collected_def)
  show ?thesis by (simp only: c assms)
qed

lemma kaggle_output:
  assumes "fs input_filename = Some (JArr datasets)"
    and "process_kaggle_datasets_file plat input_filename output_filename scripts finish fs = Done fs'"
  shows "\<exists>out. fs' = fs(output_filename \<mapsto> JArr out)
           \<and> length out = length (filter is_done (map (kaggle_task plat datasets scripts) [0..<length datasets]))
           \<and> mset out = mset (collected (map (kaggle_task plat datasets scripts) [0..<length datasets]))"
proof -
  define futures where "futures = map (kaggle_task plat datasets scripts) [0..<length datasets]"
  define out where "out = collected (map ((!) futures) (as_completed finish (length datasets)))"
  have n: "length futures = length datasets" by (simp add: futures_def)
  have "process_kaggle_datasets_file plat input_filename output_filename scripts finish fs =
          (if Starved \<in> set futures then Starved else Done (fs(output_filename \<mapsto> JArr out)))"
    using assms(1)
    by (simp add: process_kaggle_datasets_file_def kaggle_task_fun Let_def futures_def out_def)
  with assms(2) have fs': "fs' = fs(output_filename \<mapsto> JArr out)"
    by (cases "Starved \<in> set futures") simp_all
  have m: "mset (map ((!) futures) (as_completed finish (length datasets))) = mset futures"
    using completed_all [of futures finish] n by simp
  have "length out = length (filter is_done futures)"
    unfolding out_def collected_length by (rule filter_length_mset [OF m])
  moreover have "mset out = mset (collected futures)"
    unfolding out_def by (rule collected_mset [OF m])
  ultimately show ?thesis using fs' unfolding futures_def by blast
qed

lemma extract_license_texts:
  "list_all (\<lambda>t. case t of JStr s \<Rightarrow> True | _ \<Rightarrow> False) tags \<Longrightarrow> \<exists>l. extract_license tags = Inr l"
proof (induction tags)
  case Nil
  then show ?case by simp
next
  case (Cons t tags)
  then obtain s where "t = JStr s" by (cases t) simp_all
  with Cons show ?case by simp
qed

lemma safe_request_refused:
  "hub_refused r \<Longrightarrow> \<exists>trace'. safe_request plat url attempt (Response r # rest) trace = (Done None, rest, trace')"
  by (simp add: hub_refused_def Let_def)

lemma process_dataset_refused:
  assumes "readable_dataset entry" and "hub_refused a" and "hub_refused b"
  shows "\<exists>p trace'. process_dataset plat entry (both (a, b) @ rest) trace = (Done p, rest, trace')
           \<and> lookup p ''dataset_card'' = Some JNull \<and> lookup p ''files'' = Some (JArr [])"
proof -
  from assms(1) obtain kv where kv: "entry = JObj kv"
    by (cases entry) (simp_all add: readable_dataset_def)
  from assms(1) kv obtain tags where tags: "get_or kv ''tags'' (JArr []) = JArr tags"
    "list_all (\<lambda>t. case t of JStr s \<Rightarrow> True | _ \<Rightarrow> False) tags"
    by (cases "get_or kv ''tags'' (JArr [])") (simp_all add: readable_dataset_def)
  from extract_license_texts [OF tags(2)] obtain l where l: "extract_license tags = Inr l"
    by blast
  from safe_request_refused [OF assms(2)] obtain t1 where
    c: "safe_request plat (Get_hub_card (get_or kv ''id'' JNull)) 0 (Response a # Response b # rest) trace
          = (Done None, Response b # rest, t1)"
    by blast
  from safe_request_refused [OF assms(3)] obtain t2 where
    f: "safe_request plat (Get_hub_tree (get_or kv ''id'' JNull) (JStr [])) 0 (Response b # rest) t1
          = (Done None, rest, t2)"
    by blast
  from c have card: "fetch_dataset_card plat (get_or kv ''id'' JNull) (Response a # Response b # rest) trace
      = (Done JNull, Response b # rest, t1)"
    by (simp add: fetch_dataset_card_def)
  from f have files: "fetch_recursive_file_paths plat (get_or kv ''id'' JNull) (Response b # rest) t1
      = (Done [], rest, t2)"
    by (simp add: fetch_recursive_file_paths_def)
  from kv tags(1) l card files show ?thesis
    by (simp add: process_dataset_def both_def lookup_def)
qed

lemma for_each_run_hub_refused:
  "list_all2 (\<lambda>entry p. readable_dataset entry \<and> hub_refused (fst p) \<and> hub_refused (snd p)) data ps \<Longrightarrow>
   list_all (\<lambda>p. lookup p ''dataset_card'' = Some JNull \<and> lookup p ''files'' = Some (JArr [])) acc \<Longrightarrow>
   \<exists>out trace'. for_each_run (process_dataset plat) acc data (concat (map both ps) @ rest) trace = (Done out, rest, trace')
      \<and> length out = length acc + length data
      \<and> list_all (\<lambda>p. lookup p ''dataset_card'' = Some JNull \<and> lookup p ''files'' = Some (JArr [])) out"
proof (induction data ps arbitrary: acc trace rule: list_all2_induct)
  case Nil
  then show ?case by simp
next
  case (Cons entry data p ps)
  obtain a b where ab: "p = (a, b)" by (cases p)
  from process_dataset_refused [where entry = entry and a = a and b = b and plat = plat
      and rest = "concat (map both ps) @ rest" and trace = trace] Cons.hyps(1) ab
  obtain q t where q: "process_dataset plat entry (both (a, b) @ concat (map both ps) @ rest) trace
      = (Done q, concat (map both ps) @ rest, t)"
    "lookup q ''dataset_card'' = Some JNull \<and> lookup q ''files'' = Some (JArr [])"
    by auto
  from Cons.prems q(2)
  have "list_all (\<lambda>p. lookup p ''dataset_card'' = Some JNull \<and> lookup p ''files'' = Some (JArr [])) (acc @ [q])"
    by simp
  from Cons.IH [OF this, of t] obtain out trace' where
    "for_each_run (process_dataset plat) (acc @ [q]) data (concat (map both ps) @ rest) t = (Done out, rest, trace')"
    "length out = length (acc @ [q]) + length data"
    "list_all (\<lambda>p. lookup p ''dataset_card'' = Some JNull \<and> lookup p ''files'' = Some (JArr [])) out"
    by blast
  with q(1) ab show ?case by simp
qed

lemma robust_request_refused:
  "view_refused rp \<Longrightarrow> \<exists>trace'. robust_request plat url attempt (rp # rest) trace = (Done (JObj []), rest, trace')"
  by (cases rp) (simp_all add: view_refused_def Let_def)

lemma kaggle_dataset_refused:
  assumes "view_refused a" and "view_refused b"
  shows "\<exists>p. fst (process_kaggle_dataset plat (JObj kv) (a # b # rest) trace) = Done p
           \<and> lookup p ''dataset_card'' = Some (JStr []) \<and> lookup p ''files'' = Some (JArr [])"
proof -
  from robust_request_refused [OF assms(1)] obtain t1 where
    c: "robust_request plat (View_kaggle_dataset (get_or kv ''ref'' (JStr []))) 0 (a # b # rest) trace
          = (Done (JObj []), b # rest, t1)"
    by blast
  from robust_request_refused [OF assms(2)] obtain t2 where
    f: "robust_request plat (View_kaggle_dataset (get_or kv ''ref'' (JStr []))) 0 (b # rest) (t1 @ [Sleep 1])
          = (Done (JObj []), rest, t2)"
    by blast
  from c have card: "get_kaggle_dataset_card plat (get_or kv ''ref'' (JStr [])) (a # b # rest) trace
      = (Done (JStr []), b # rest, t1)"
    by (simp add: get_kaggle_dataset_card_def)
  from f have files: "get_kaggle_dataset_files plat (get_or kv ''ref'' (JStr [])) (b # rest) (t1 @ [Sleep 1])
      = (Done [], rest, t2)"
    by (simp add: get_kaggle_dataset_files_def)
  from card files show ?thesis
    by (simp add: process_kaggle_dataset_def lookup_def)
qed

lemma is_done_filter_le: "length (filter is_done (map f [0..<n])) \<le> n"
  by (metis length_filter_le length_map length_upt diff_zero)

lemma all_done_filter: "list_all is_done xs \<Longrightarrow> length (filter is_done xs) = length xs"
  by (induction xs) simp_all

lemma kaggle_all_refused:
  assumes "\<forall>i<length datasets. \<exists>kv a b rest. datasets ! i = JObj kv \<and> scripts i = a # b # rest
             \<and> view_refused a \<and> view_refused b"
  shows "list_all is_done (map (kaggle_task plat datasets scripts) [0..<length datasets])"
proof -
  have "is_done (kaggle_task plat datasets scripts i)" if "i < length datasets" for i
  proof -
    from assms that obtain kv a b rest where
      "datasets ! i = JObj kv" "scripts i = a # b # rest" "view_refused a" "view_refused b"
      by blast
    with kaggle_dataset_refused [where a = a and b = b and plat = plat and kv = kv and rest = rest
        and trace = "[]"] show ?thesis
      by (auto simp: kaggle_task_def is_done_def)
  qed
  then show ?thesis by (simp add: list_all_iff)
qed

text \<open>
  Claim C1, as amended. The enrichment of the code host and of the hub, where it returns,
  returns as many records as it was given, the empty list included; when every secondary
  fetch is refused for good (the status is neither a success nor retried), it does
  return, and every record is there with its secondary fields null (the readme; the card,
  with an empty file list). The enrichment of the competition catalog writes the records
  of the tasks that returned one: at most as many as it was given, as many when no task
  raised; a task whose requests are refused returns its record with an empty card and an
  empty file list, and a task that raises is reported and leaves no record.
\<close>

theorem record_conservation:
  "(process_repositories plat repos script trace = (Done enriched, script', trace') \<longrightarrow>
      length enriched = length repos)
   \<and> (process_datasets plat data script trace = (Done enriched', script'', trace'') \<longrightarrow>
      length enriched' = length data)
   \<and> (list_all2 (\<lambda>repo r. readable_repo repo \<and> readme_refused r) repos rs \<longrightarrow>
        (\<exists>out t. process_repositories plat repos (map Response rs @ rest) trace = (Done out, rest, t)
           \<and> length out = length repos
           \<and> list_all (\<lambda>p. lookup p ''readme'' = Some JNull) out))
   \<and> (list_all2 (\<lambda>entry p. readable_dataset entry \<and> hub_refused (fst p) \<and> hub_refused (snd p)) data ps \<longrightarrow>
        (\<exists>out t. process_datasets plat data (concat (map both ps) @ rest) trace = (Done out, rest, t)
           \<and> length out = length data
           \<and> list_all (\<lambda>p. lookup p ''dataset_card'' = Some JNull \<and> lookup p ''files'' = Some (JArr [])) out))
   \<and> (fs input_filename = Some (JArr datasets)
        \<and> process_kaggle_datasets_file plat input_filename output_filename scripts finish fs = Done fs' \<longrightarrow>
        (\<exists>out. fs' = fs(output_filename \<mapsto> JArr out)
           \<and> length out = length (filter is_done (map (kaggle_task plat datasets scripts) [0..<length datasets]))
           \<and> length out \<le> length datasets
           \<and> (list_all is_done (map (kaggle_task plat datasets scripts) [0..<length datasets]) \<longrightarrow>
                length out = length datasets)))
   \<and> ((\<forall>i<length datasets. \<exists>kv a b rest. datasets ! i = JObj kv \<and> scripts i = a # b # rest
             \<and> view_refused a \<and> view_refused b) \<longrightarrow>
        list_all is_done (map (kaggle_task plat datasets scripts) [0..<length datasets]))"
proof -
  have a: "process_repositories plat repos script trace = (Done enriched, script', trace') \<longrightarrow>
      length enriched = length repos"
    using for_each_run_length [of "process_repository plat" "[]" repos script trace enriched script' trace']
    by (simp add: process_repositories_def)
  have b: "process_datasets plat data script trace = (Done enriched', script'', trace'') \<longrightarrow>
      length enriched' = length data"
    using for_each_run_length [of "process_dataset plat" "[]" data script trace enriched' script'' trace'']
    by (simp add: process_datasets_def)
  have c: "list_all2 (\<lambda>repo r. readable_repo repo \<and> readme_refused r) repos rs \<longrightarrow>
        (\<exists>out t. process_repositories plat repos (map Response rs @ rest) trace = (Done out, rest, t)
           \<and> length out = length repos
           \<and> list_all (\<lambda>p. lookup p ''readme'' = Some JNull) out)"
    using for_each_run_refused [where repos = repos and rs = rs and acc = "[]" and plat = plat
        and rest = rest and trace = trace]
    by (simp add: process_repositories_def)
  have d: "list_all2 (\<lambda>entry p. readable_dataset entry \<and> hub_refused (fst p) \<and> hub_refused (snd p)) data ps \<longrightarrow>
        (\<exists>out t. process_datasets plat data (concat (map both ps) @ rest) trace = (Done out, rest, t)
           \<and> length out = length data
           \<and> list_all (\<lambda>p. lookup p ''dataset_card'' = Some JNull \<and> lookup p ''files'' = Some (JArr [])) out)"
    using for_each_run_hub_refused [where data = data and ps = ps and acc = "[]" and plat = plat
        and rest = rest and trace = trace]
    by (simp add: process_datasets_def)
  have e: "fs input_filename = Some (JArr datasets)
        \<and> process_kaggle_datasets_file plat input_filename output_filename scripts finish fs = Done fs' \<longrightarrow>
        (\<exists>out. fs' = fs(output_filename \<mapsto> JArr out)
           \<and> length out = length (filter is_done (map (kaggle_task plat datasets scripts) [0..<length datasets]))
           \<and> length out \<le> length datasets
           \<and> (list_all is_done (map (kaggle_task plat datasets scripts) [0..<length datasets]) \<longrightarrow>
                length out = length datasets))"
  proof
    assume h: "fs input_filename = Some (JArr datasets)
        \<and> process_kaggle_datasets_file plat input_filename output_filename scripts finish fs = Done fs'"
    from kaggle_output [where fs = fs and input_filename = input_filename and datasets = datasets
        and output_filename = output_filename and plat = plat and scripts = scripts and finish = finish
        and fs' = fs'] h
    obtain out where out: "fs' = fs(output_filename \<mapsto> JArr out)"
      "length out = length (filter is_done (map (kaggle_task plat datasets scripts) [0..<length datasets]))"
      by blast
    from out(2) is_done_filter_le [of "kaggle_task plat datasets scripts" "length datasets"]
    have le: "length out \<le> length datasets" by simp
    have "list_all is_done (map (kaggle_task plat datasets scripts) [0..<length datasets]) \<longrightarrow>
                length out = length datasets"
      using out(2) all_done_filter [of "map (kaggle_task plat datasets scripts) [0..<length datasets]"]
      by simp
    with out le show "\<exists>out. fs' = fs(output_filename \<mapsto> JArr out)
           \<and> length out = length (filter is_done (map (kaggle_task plat datasets scripts) [0..<length datasets]))
           \<and> length out \<le> length datasets
           \<and> (list_all is_done (map (kaggle_task plat datasets scripts) [0..<length datasets]) \<longrightarrow>
                length out = length datasets)"
      by blast
  qed
  have f: "(\<forall>i<length datasets. \<exists>kv a b rest. datasets ! i = JObj kv \<and> scripts i = a # b # rest
             \<and> view_refused a \<and> view_refused b) \<longrightarrow>
        list_all is_done (map (kaggle_task plat datasets scripts) [0..<length datasets])"
    using kaggle_all_refused by blast
  from a b c d e f show ?thesis by (intro conjI)
qed

text \<open>Two repositories, both readme requests refused (404 and 500): two records, no readme.\<close>

lemma two_refused:
  "list_all2 (\<lambda>repo r. readable_repo repo \<and> readme_refused r)
     [raw_repo ''a/one'', raw_repo ''b/two''] [plain_response 404 ''Not Found'', plain_response 500 ''Oops'']"
  by (simp add: readable_repo_def raw_repo_def get_or_def readme_refused_def plain_response_def
      header_int_def header_get_def)

text \<open>
  A hub record whose card and file listing are refused (404 and 401), and a dataset of the
  competition catalog whose two view requests are refused (404).
\<close>

lemma hub_pair_refused:
  "list_all2 (\<lambda>entry p. readable_dataset entry \<and> hub_refused (fst p) \<and> hub_refused (snd p))
     [JObj [(''id'', JStr ''org/brset''), (''tags'', JArr [JStr ''license:mit''])]]
     [(plain_response 404 ''Not Found'', plain_response 401 ''Unauthorized'')]"
  by (simp add: readable_dataset_def get_or_def hub_refused_def plain_response_def)

lemma catalog_views_refused:
  "\<forall>i<length [raw_kaggle ''user/one'']. \<exists>kv a b rest.
      [raw_kaggle ''user/one''] ! i = JObj kv
      \<and> (\<lambda>i. [Response (plain_response 404 ''Not Found''), Response (plain_response 404 ''Not Found'')]) i
          = a # b # rest
      \<and> view_refused a \<and> view_refused b"
  by (simp add: raw_kaggle_def view_refused_def plain_response_def)

theorem record_conservation_witness:
  "list_all2 (\<lambda>repo r. readable_repo repo \<and> readme_refused r)
     [raw_repo ''a/one'', raw_repo ''b/two''] [plain_response 404 ''Not Found'', plain_response 500 ''Oops'']
   \<and> (\<exists>out t. process_repositories steady [raw_repo ''a/one'', raw_repo ''b/two'']
                (map Response [plain_response 404 ''Not Found'', plain_response 500 ''Oops''] @ []) []
                  = (Done out, [], t)
          \<and> length out = 2
          \<and> list_all (\<lambda>p. lookup p ''readme'' = Some JNull) out)
   \<and> (\<exists>out t. process_datasets steady
                [JObj [(''id'', JStr ''org/brset''), (''tags'', JArr [JStr ''license:mit''])]]
                [Response (plain_response 404 ''Not Found''), Response (plain_response 401 ''Unauthorized'')] []
                  = (Done out, [], t)
          \<and> length out = 1
          \<and> list_all (\<lambda>p. lookup p ''dataset_card'' = Some JNull \<and> lookup p ''files'' = Some (JArr [])) out)
   \<and> list_all is_done
        (map (kaggle_task steady [raw_kaggle ''user/one'']
               (\<lambda>i. [Response (plain_response 404 ''Not Found''), Response (plain_response 404 ''Not Found'')]))
           [0..<1])"
proof -
  from record_conservation [where repos = "[raw_repo ''a/one'', raw_repo ''b/two'']"
      and rs = "[plain_response 404 ''Not Found'', plain_response 500 ''Oops'']"
      and rest = "[]" and trace = "[]", THEN conjunct2, THEN conjunct2, THEN conjunct1] two_refused
  obtain out t where r: "process_repositories steady [raw_repo ''a/one'', raw_repo ''b/two'']
                (map Response [plain_response 404 ''Not Found'', plain_response 500 ''Oops''] @ []) []
                  = (Done out, [], t)"
    "length out = length [raw_repo ''a/one'', raw_repo ''b/two'']"
    "list_all (\<lambda>p. lookup p ''readme'' = Some JNull) out"
    by blast
  from record_conservation [where data = "[JObj [(''id'', JStr ''org/brset''), (''tags'', JArr [JStr ''license:mit''])]]"
      and ps = "[(plain_response 404 ''Not Found'', plain_response 401 ''Unauthorized'')]"
      and rest = "[]" and trace = "[]",
      THEN conjunct2, THEN conjunct2, THEN conjunct2, THEN conjunct1] hub_pair_refused
  obtain out' t' where h: "process_datasets steady
                [JObj [(''id'', JStr ''org/brset''), (''tags'', JArr [JStr ''license:mit''])]]
                (concat (map both [(plain_response 404 ''Not Found'', plain_response 401 ''Unauthorized'')]) @ []) []
                  = (Done out', [], t')"
    "length out' = length [JObj [(''id'', JStr ''org/brset''), (''tags'', JArr [JStr ''license:mit''])]]"
    "list_all (\<lambda>p. lookup p ''dataset_card'' = Some JNull \<and> lookup p ''files'' = Some (JArr [])) out'"
    by blast
  from h(1) have h1: "process_datasets steady
                [JObj [(''id'', JStr ''org/brset''), (''tags'', JArr [JStr ''license:mit''])]]
                [Response (plain_response 404 ''Not Found''), Response (plain_response 401 ''Unauthorized'')] []
                  = (Done out', [], t')"
    by (simp add: both_def)
  from record_conservation [where datasets = "[raw_kaggle ''user/one'']"
      and scripts = "\<lambda>i. [Response (plain_response 404 ''Not Found''), Response (plain_response 404 ''Not Found'')]",
      THEN conjunct2, THEN conjunct2, THEN conjunct2, THEN conjunct2, THEN conjunct2]
    catalog_views_refused
  have k: "list_all is_done
        (map (kaggle_task steady [raw_kaggle ''user/one'']
               (\<lambda>i. [Response (plain_response 404 ''Not Found''), Response (plain_response 404 ''Not Found'')]))
           [0..<length [raw_kaggle ''user/one'']])"
    by blast
  then have k1: "list_all is_done
        (map (kaggle_task steady [raw_kaggle ''user/one'']
               (\<lambda>i. [Response (plain_response 404 ''Not Found''), Response (plain_response 404 ''Not Found'')]))
           [0..<1])"
    by simp
  have e1: "(\<exists>out t. process_repositories steady [raw_repo ''a/one'', raw_repo ''b/two'']
                (map Response [plain_response 404 ''Not Found'', plain_response 500 ''Oops''] @ []) []
                  = (Done out, [], t)
          \<and> length out = 2
          \<and> list_all (\<lambda>p. lookup p ''readme'' = Some JNull) out)"
    using r by auto
  have e2: "(\<exists>out t. process_datasets steady
                [JObj [(''id'', JStr ''org/brset''), (''tags'', JArr [JStr ''license:mit''])]]
                [Response (plain_response 404 ''Not Found''), Response (plain_response 401 ''Unauthorized'')] []
                  = (Done out, [], t)
          \<and> length out = 1
          \<and> list_all (\<lambda>p. lookup p ''dataset_card'' = Some JNull \<and> lookup p ''files'' = Some (JArr [])) out)"
    using h1 h(2,3) by auto
  from two_refused e1 e2 k1 show ?thesis by (intro conjI)
qed

text \<open>
  One dataset of the competition catalog; the view answers 200 with file entries that
  have no \<^verbatim>\<open>name\<close>. The task raises \<^verbatim>\<open>KeyError\<close>, and the enriched artifact is the empty
  list.
\<close>

theorem record_conservation_counterexample:
  "clean_kaggle_data steady ''BRSET'' (\<lambda>i. [Response view_without_names, Response view_without_names]) (\<lambda>i. i)
     [kaggle_datasets_file ''BRSET'' \<mapsto> JArr [raw_kaggle ''user/brset'']]
   = Done ([kaggle_datasets_file ''BRSET'' \<mapsto> JArr [raw_kaggle ''user/brset''],
            processed_kaggle_file ''BRSET'' \<mapsto> JArr []])"
proof -
  have "fst (process_kaggle_dataset steady (raw_kaggle ''user/brset'')
          [Response view_without_names, Response view_without_names] []) = Raised KeyError"
    by (simp add: process_kaggle_dataset_def raw_kaggle_def get_or_def get_kaggle_dataset_card_def
        get_kaggle_dataset_files_def view_without_names_def listing_def subscript_def Let_def)
  then show ?thesis
    by (simp add: clean_kaggle_data_def process_kaggle_datasets_file_def as_completed_def
        collected_def Let_def)
qed

subsection \<open>C5: running a stage twice\<close>























end
